theory Spec2Isabelle
  imports Main "HOL-Library.AList" "HOL-Library.Sublist"
begin

section \<open>Text and dictionary values\<close>

text \<open>
  A Python \<open>str\<close> is a sequence of Unicode code points; the racecard pages are Japanese,
  so text is modelled as a list of code points. Dictionary keys written in the source
  are ASCII and stay \<open>string\<close>s. A \<open>dict\<close> is an association list in insertion
  order: \<open>map_of\<close> is \<open>d.get(k)\<close>, \<open>AList.update\<close> is \<open>d[k] = v\<close> (in place for a
  present key, appended for a new one) and \<open>AList.delete\<close> is \<open>d.pop(k, None)\<close>.
\<close>

type_synonym ustr = "nat list"

definition u :: "string \<Rightarrow> ustr" where
  "u s = map of_char s"

datatype pyval =
    PStr ustr
  | PInt int
  | PList "pyval list"
  | PDict "(string \<times> pyval) list"

type_synonym pydict = "(string \<times> pyval) list"

text \<open>Python truthiness of a value (\<open>if v:\<close>) and of an optional value (\<open>if d.get(k):\<close>).\<close>

fun truthy :: "pyval \<Rightarrow> bool" where
  "truthy (PStr s) = (s \<noteq> [])"
| "truthy (PInt i) = (i \<noteq> 0)"
| "truthy (PList xs) = (xs \<noteq> [])"
| "truthy (PDict d) = (d \<noteq> [])"

fun truthy_opt :: "pyval option \<Rightarrow> bool" where
  "truthy_opt None = False"
| "truthy_opt (Some v) = truthy v"

text \<open>\<open>d.setdefault(k, v)\<close>: store only when the key is absent.\<close>

definition setdefault :: "string \<Rightarrow> pyval \<Rightarrow> pydict \<Rightarrow> pydict" where
  "setdefault k v d = (case map_of d k of None \<Rightarrow> AList.update k v d | Some _ \<Rightarrow> d)"

text \<open>\<open>d.update(e)\<close>: every entry of \<open>e\<close>, in its order, stored into \<open>d\<close>.\<close>

definition dict_update :: "pydict \<Rightarrow> pydict \<Rightarrow> pydict" where
  "dict_update e d = fold (\<lambda>(k, v). AList.update k v) e d"

section \<open>Errors\<close>

text \<open>
  \<open>AbortScrapeError\<close> is the source's one exception class; its message tells the
  raising places apart, so the model keeps one reason per \<open>raise\<close>. Every other
  exception (\<open>AttributeError\<close>, \<open>StopIteration\<close>, \<open>ValueError\<close>, ...) is \<open>PyException\<close>.
\<close>

datatype abort_reason =
    ScrapingHalted
  | SyutsubaListNotFound
  | FailedToFetch ustr ustr
  | PlaywrightImportFailed ustr
  | PlaywrightFetchFailed ustr
  | PlaywrightNavigationFailed ustr
  | PlaywrightAllVenuesFailed ustr
  | NoVenueDataFetched
  | VenueKeywordRequired
  | HtmlFileNotFound ustr

datatype error = AbortScrapeError abort_reason | PyException ustr

section \<open>String helpers\<close>

text \<open>The code points \<open>str.isspace\<close> accepts, which \<open>str.strip()\<close> removes at both ends.\<close>

definition isspace :: "nat \<Rightarrow> bool" where
  "isspace c = ((9 \<le> c \<and> c \<le> 13) \<or> (28 \<le> c \<and> c \<le> 32) \<or> c = 133 \<or> c = 160
     \<or> c = 5760 \<or> (8192 \<le> c \<and> c \<le> 8202) \<or> c = 8232 \<or> c = 8233 \<or> c = 8239
     \<or> c = 8287 \<or> c = 12288)"

definition strip :: "ustr \<Rightarrow> ustr" where
  "strip s = rev (dropWhile isspace (rev (dropWhile isspace s)))"

text \<open>\<open>s.replace(pat, "")\<close> for a non-empty \<open>pat\<close>: leftmost occurrences, not overlapping.\<close>

function str_remove :: "ustr \<Rightarrow> ustr \<Rightarrow> ustr" where
  "str_remove pat [] = []"
| "str_remove pat (c # cs) =
     (if pat \<noteq> [] \<and> prefix pat (c # cs) then str_remove pat (drop (length pat) (c # cs))
      else c # str_remove pat cs)"
  by pat_completeness auto
termination
  by (relation "measure (\<lambda>(pat, s). length s)") (auto simp: neq_Nil_conv)

function decimal :: "nat \<Rightarrow> ustr" where
  "decimal n = (if n < 10 then [48 + n] else decimal (n div 10) @ [48 + n mod 10])"
  by pat_completeness auto
termination
  by (relation "measure id") auto

definition BASE_URL :: ustr where
  "BASE_URL = u ''https://www.jra.go.jp''"

definition BLOCKED_WEEKDAYS :: "nat set" where
  "BLOCKED_WEEKDAYS = {1, 2, 3}"

definition BLOCK_START_HOUR :: nat where
  "BLOCK_START_HOUR = 16"

definition BLOCK_END_HOUR :: nat where
  "BLOCK_END_HOUR = 17"

text \<open>\<open>BASE_URL.rstrip("/")\<close> is \<open>BASE_URL\<close>: the constant does not end in a slash.\<close>

definition make_absolute_url :: "ustr \<Rightarrow> ustr" where
  "make_absolute_url href =
     (if href = [] then []
      else if prefix (u ''http://'') href \<or> prefix (u ''https://'') href then href
      else if prefix (u ''/'') href then BASE_URL @ href
      else href)"

section \<open>The page as the parser sees it\<close>

text \<open>
  The parser reads a page through BeautifulSoup selections. The model takes the result of
  each selection: an element that \<open>select_one\<close> does not find is \<open>None\<close>, a found
  element is its \<open>get_text(strip=True)\<close>, an attribute that is absent is \<open>None\<close>.
\<close>

record anchor =
  a_href :: "ustr option"
  a_onclick :: "ustr option"

record tr =
  td_horse :: "ustr option"
  td_age :: "ustr option"
  td_waku :: "ustr option"
  td_waku_img_alt :: "ustr option"
  td_horse_a :: "anchor option"
  td_jockey :: "ustr option"
  td_jockey_a :: "anchor option"
  td_num :: "ustr option"
  td_weight :: "ustr option"
  td_trainer :: "ustr option"
  td_odds :: "ustr option"
  td_h_weight :: "ustr option"

record race_header =
  date_line_date :: "ustr option"
  date_line_time_strong :: "ustr option"
  date_line :: "ustr option"

record li =
  li_id :: ustr
  li_race_header :: "race_header option"
  li_race_name :: "ustr option"
  li_course :: "ustr option"
  li_rows :: "tr list"

text \<open>What \<open>parse_horse_detail\<close> and \<open>parse_jockey_detail\<close> put under each key they return.\<close>

record horse_detail =
  hd_father :: ustr
  hd_mother :: ustr
  hd_trainer :: ustr
  hd_birthday :: ustr
  hd_color :: ustr
  hd_serei :: ustr
  hd_pastRaces :: "pyval list"

record jockey_detail =
  jd_birthday :: ustr
  jd_height :: ustr
  jd_weight :: ustr
  jd_first_license :: ustr
  jd_stats_current :: pyval
  jd_stats_total :: pyval

text \<open>
  The regular-expression engine, its Unicode tables and the HTML parser are libraries
  outside the repository. Each \<open>re.search\<close>/\<open>re.match\<close> of the source is a parameter
  that returns the groups the source reads, or \<open>None\<close> when the pattern does not match;
  \<open>select_race_items\<close> is \<open>BeautifulSoup(html).select("ul.syutsuba_unit_list
  li[id^=syutsuba_]")\<close>; the two detail-page readers give the values the source's
  detail parsers return, or the message of the exception they raise.
\<close>

record pylib =
  search_syutsuba_R :: "ustr \<Rightarrow> nat option"
  search_digits :: "ustr \<Rightarrow> ustr option"
  search_waku :: "ustr \<Rightarrow> (ustr \<times> ustr) option"
  search_kai_nichi :: "ustr \<Rightarrow> ustr option"
  match_base_date :: "ustr \<Rightarrow> ustr option"
  search_doAction :: "ustr \<Rightarrow> (ustr \<times> ustr) option"
  select_race_items :: "ustr \<Rightarrow> li list"
  read_horse_detail :: "ustr \<Rightarrow> ustr + horse_detail"
  read_jockey_detail :: "ustr \<Rightarrow> ustr + jockey_detail"

definition parse_onclick_url :: "pylib \<Rightarrow> ustr \<Rightarrow> ustr" where
  "parse_onclick_url R onclick =
     (if onclick = [] then []
      else case search_doAction R onclick of
        None \<Rightarrow> []
      | Some (path, code) \<Rightarrow>
          (let path_part = (if prefix (u ''/'') path then path else u ''/'' @ path)
           in BASE_URL @ path_part @ u ''?cname='' @ code))"

definition safe_text :: "ustr option \<Rightarrow> ustr" where
  "safe_text el = (case el of None \<Rightarrow> [] | Some t \<Rightarrow> t)"

definition parse_course :: "pylib \<Rightarrow> ustr \<Rightarrow> ustr \<times> ustr" where
  "parse_course R t =
     (let distance = (case search_digits R t of
                        None \<Rightarrow> []
                      | Some g \<Rightarrow> str_remove (u '','') g);
          surface = (if 33437 \<in> set t then [33437]
                     else if sublist [12480, 12540, 12488] t \<or> sublist [65408, 65438, 65392, 65412] t
                       then [12480, 12540, 12488]
                     else [])
      in (distance, if surface \<noteq> [] then surface else t))"

definition clean_kg :: "ustr \<Rightarrow> ustr" where
  "clean_kg t = strip (str_remove [65323, 65319] (str_remove (u ''kg'') t))"

definition clean_bataiju :: "ustr \<Rightarrow> ustr" where
  "clean_bataiju t = strip t"

definition extract_venue_from_date :: "pylib \<Rightarrow> ustr \<Rightarrow> ustr" where
  "extract_venue_from_date R t = (case search_kai_nichi R t of None \<Rightarrow> [] | Some g \<Rightarrow> g)"

definition extract_base_date :: "pylib \<Rightarrow> ustr \<Rightarrow> ustr" where
  "extract_base_date R t = (case match_base_date R t of None \<Rightarrow> t | Some g \<Rightarrow> g)"

text \<open>
  The seven weekday characters are U+571F, U+65E5, U+6708, U+706B, U+6C34, U+6728 and
  U+91D1; \<open>"c" in text\<close> for a one-character string is membership.
\<close>

definition weekday_key :: "ustr \<Rightarrow> ustr" where
  "weekday_key t =
     (if 22303 \<in> set t then u ''saturday''
      else if 26085 \<in> set t then u ''sunday''
      else if 26376 \<in> set t then u ''monday''
      else if 28779 \<in> set t then u ''tuesday''
      else if 27700 \<in> set t then u ''wednesday''
      else if 26408 \<in> set t then u ''thursday''
      else if 37329 \<in> set t then u ''friday''
      else u ''unknown'')"

section \<open>The data model\<close>

record Horse =
  num :: ustr
  waku :: ustr
  waku_color :: ustr
  name :: ustr
  serei :: ustr
  weight :: ustr
  jockey :: ustr
  jockey_url :: ustr
  trainer :: ustr
  odds :: ustr
  bataiju :: ustr
  detail_url :: ustr
  father :: ustr
  mother :: ustr
  birthday :: ustr
  color :: ustr
  past_races :: "pyval list option"

definition Horse_to_dict :: "Horse \<Rightarrow> pydict" where
  "Horse_to_dict h =
     [(''num'', PStr (num h)),
      (''waku'', PStr (waku h)),
      (''waku_color'', PStr (waku_color h)),
      (''name'', PStr (name h)),
      (''serei'', PStr (serei h)),
      (''weight'', PStr (weight h)),
      (''jockey'', PStr (jockey h)),
      (''jockey_url'', PStr (jockey_url h)),
      (''trainer'', PStr (trainer h)),
      (''odds'', PStr (odds h)),
      (''bataiju'', PStr (bataiju h)),
      (''detail_url'', PStr (detail_url h)),
      (''father'', PStr (father h)),
      (''mother'', PStr (mother h)),
      (''birthday'', PStr (birthday h)),
      (''color'', PStr (color h)),
      (''pastRaces'', PList (case past_races h of None \<Rightarrow> [] | Some ps \<Rightarrow> ps))]"

record Race =
  race_id :: ustr
  race_number :: nat
  start_time :: ustr
  title :: ustr
  course_distance :: ustr
  surface :: ustr
  horses :: "Horse list"

text \<open>
  A race dictionary is its scalar entries, in insertion order, and the list under its
  last key \<open>horses\<close>; a venue dictionary is its scalar entries and the list under its last
  key \<open>races\<close>. Both the per-day view and the flat view have this shape, with different
  scalar keys.
\<close>

record race_dict =
  race_entries :: pydict
  race_horses :: "pydict list"

record venue_dict =
  venue_entries :: pydict
  venue_races :: "race_dict list"

record day_block =
  day_date :: ustr
  day_venues :: "venue_dict list"

text \<open>
  The aggregate. \<open>'b\<close> is what the \<open>days\<close> mapping holds for a key: the day block itself
  where only the value matters (a parsed page, a JSON document), the address of the day
  block in a store where two keys may be bound to one object.
\<close>

record 'b race_data =
  date :: ustr
  days :: "(ustr \<times> 'b) list"
  venues :: "venue_dict list"

definition Race_to_dict :: "Race \<Rightarrow> race_dict" where
  "Race_to_dict r =
     \<lparr>race_entries =
        [(''race_id'', PStr (race_id r)),
         (''race_number'', PInt (int (race_number r))),
         (''start_time'', PStr (start_time r)),
         (''title'', PStr (title r)),
         (''course_distance'', PStr (course_distance r)),
         (''surface'', PStr (surface r))],
      race_horses = map Horse_to_dict (horses r)\<rparr>"

section \<open>The racecard parser\<close>

text \<open>\<open>(a or {}).get(key, "") or ""\<close> for an anchor that may be absent.\<close>

definition anchor_get :: "anchor option \<Rightarrow> (anchor \<Rightarrow> ustr option) \<Rightarrow> ustr" where
  "anchor_get a attr = (case a of None \<Rightarrow> [] | Some x \<Rightarrow> (case attr x of None \<Rightarrow> [] | Some v \<Rightarrow> v))"

text \<open>The link of a cell: the \<open>href\<close> unless it is \<open>#\<close> or empty, else the \<open>onclick\<close> target.\<close>

definition cell_link :: "pylib \<Rightarrow> anchor option \<Rightarrow> ustr" where
  "cell_link R a =
     (let href = anchor_get a a_href;
          href = (if href = u ''#'' then [] else href);
          ab = make_absolute_url href
      in if ab \<noteq> [] then ab else parse_onclick_url R (anchor_get a a_onclick))"

definition parse_row :: "pylib \<Rightarrow> tr \<Rightarrow> Horse option" where
  "parse_row R row =
     (let nm = safe_text (td_horse row) in
      if nm = [] then None
      else
        let serei_text = safe_text (td_age row);
            waku_text = safe_text (td_waku row);
            waku_alt = (case td_waku_img_alt row of None \<Rightarrow> [] | Some a \<Rightarrow> a);
            m = search_waku R waku_alt;
            (waku_text, waku_col) =
              (if waku_text = [] then
                 (case m of None \<Rightarrow> (waku_text, []) | Some (g1, g2) \<Rightarrow> (g1, strip g2))
               else
                 (case m of None \<Rightarrow> (waku_text, []) | Some (g1, g2) \<Rightarrow> (waku_text, strip g2)))
        in Some \<lparr>num = safe_text (td_num row),
                 waku = waku_text,
                 waku_color = waku_col,
                 name = nm,
                 serei = serei_text,
                 weight = clean_kg (safe_text (td_weight row)),
                 jockey = safe_text (td_jockey row),
                 jockey_url = cell_link R (td_jockey_a row),
                 trainer = safe_text (td_trainer row),
                 odds = safe_text (td_odds row),
                 bataiju = clean_bataiju (safe_text (td_h_weight row)),
                 detail_url = cell_link R (td_horse_a row),
                 father = [], mother = [], birthday = [], color = [],
                 past_races = None\<rparr>)"

text \<open>
  \<open>header = li.select_one(".race_header")\<close> is not checked before \<open>header.select_one\<close>:
  a race item without a header raises \<open>AttributeError\<close>. The parameter
  \<open>search_syutsuba_R\<close> gives the number \<open>int(num_match.group(1))\<close>; the \<open>ValueError\<close> of
  \<open>int\<close> on a digit run beyond the interpreter's length limit is not part of the model.
\<close>

definition NoneType_has_no_select_one :: error where
  "NoneType_has_no_select_one =
     PyException (u ''AttributeError: NoneType object has no attribute select_one'')"

definition parse_race_li :: "pylib \<Rightarrow> li \<Rightarrow> error + Race" where
  "parse_race_li R item =
     (let rnum = (case search_syutsuba_R R (li_id item) of None \<Rightarrow> 0 | Some n \<Rightarrow> n) in
      case li_race_header item of
        None \<Rightarrow> Inl NoneType_has_no_select_one
      | Some header \<Rightarrow>
          let date_text = safe_text (date_line_date header);
              stime = safe_text (date_line_time_strong header);
              ttl = safe_text (li_race_name item);
              course_text = safe_text (li_course item);
              (dist, surf) = parse_course R course_text;
              v = extract_venue_from_date R date_text;
              venue = (if v \<noteq> [] then v else u ''unknown'');
              rid = (if rnum \<noteq> 0
                     then venue @ u ''-'' @ (if rnum < 10 then 48 # decimal rnum else decimal rnum)
                     else venue)
          in Inr \<lparr>race_id = rid,
                  race_number = rnum,
                  start_time = stime,
                  title = ttl,
                  course_distance = dist,
                  surface = surf,
                  horses = List.map_filter (parse_row R) (li_rows item)\<rparr>)"

text \<open>A list comprehension whose body may raise: the first exception ends it.\<close>

fun map_result :: "('a \<Rightarrow> error + 'b) \<Rightarrow> 'a list \<Rightarrow> error + 'b list" where
  "map_result f [] = Inr []"
| "map_result f (x # xs) =
     (case f x of
        Inl e \<Rightarrow> Inl e
      | Inr y \<Rightarrow> (case map_result f xs of Inl e \<Rightarrow> Inl e | Inr ys \<Rightarrow> Inr (y # ys)))"

definition flat_race :: "Race \<Rightarrow> race_dict" where
  "flat_race r =
     \<lparr>race_entries =
        [(''id'', PStr (race_id r)),
         (''raceNum'', PInt (int (race_number r))),
         (''time'', PStr (start_time r)),
         (''title'', PStr (title r)),
         (''status'', PStr (u ''upcoming'')),
         (''course_distance'', PStr (course_distance r)),
         (''surface'', PStr (surface r))],
      race_horses = map Horse_to_dict (horses r)\<rparr>"

definition parse_race_items :: "pylib \<Rightarrow> li list \<Rightarrow> error + day_block race_data" where
  "parse_race_items R race_items =
     (case race_items of
        [] \<Rightarrow> Inl (AbortScrapeError SyutsubaListNotFound)
      | first # _ \<Rightarrow>
          (case map_result (parse_race_li R) race_items of
             Inl e \<Rightarrow> Inl e
           | Inr rs \<Rightarrow>
               (case li_race_header first of
                  None \<Rightarrow> Inl NoneType_has_no_select_one
                | Some first_header \<Rightarrow>
                    let date_text = safe_text (date_line_date first_header);
                        base_date = extract_base_date R date_text;
                        venue = extract_venue_from_date R date_text;
                        day_key = weekday_key date_text;
                        lbl = safe_text (date_line first_header);
                        venue_label = (if lbl \<noteq> [] then lbl else date_text);
                        venue_block =
                          \<lparr>venue_entries =
                             [(''venue'', PStr venue), (''venue_label'', PStr venue_label)],
                           venue_races = map Race_to_dict rs\<rparr>
                    in Inr \<lparr>date = base_date,
                            days = [(day_key, \<lparr>day_date = date_text, day_venues = [venue_block]\<rparr>)],
                            venues =
                              [\<lparr>venue_entries =
                                  [(''name'', PStr venue),
                                   (''session'', PStr (if venue_label \<noteq> [] then venue_label else venue))],
                                venue_races = map flat_race rs\<rparr>]\<rparr>)))"

definition parse_syutsuba_html :: "pylib \<Rightarrow> ustr \<Rightarrow> error + day_block race_data" where
  "parse_syutsuba_html R html = parse_race_items R (select_race_items R html)"

section \<open>The world outside: clock, network, browser, files\<close>

text \<open>
  A request is logged when it is issued. The network and the browser may answer the same
  address differently at different moments, so each takes the requests issued so far.
\<close>

datatype request = Static ustr | Browser ustr

text \<open>
  \<open>fetch_html_from_url\<close>: building the request (\<open>urlparse\<close>, \<open>Request\<close>) stands outside the
  \<open>try\<close>, so what it raises is not wrapped; whatever \<open>urlopen\<close> or \<open>read\<close> raises is wrapped
  into the abort condition; the decoding of the bytes never raises.
\<close>

datatype response = Content ustr | UrlopenRaised ustr | RequestRaised ustr

text \<open>The browser functions wrap every exception: the import's, and any other.\<close>

datatype 'a browser = Rendered 'a | ImportRaised ustr | BrowserRaised ustr

record world =
  now_weekday :: nat
  now_hour :: nat
  http :: "request list \<Rightarrow> ustr \<Rightarrow> response"
  browser_page :: "request list \<Rightarrow> ustr \<Rightarrow> ustr browser"
  browser_syutsuba :: "ustr \<Rightarrow> ustr browser"
  browser_all_syutsuba :: "(ustr \<times> ustr) list browser"
  DEFAULT_HTML_PATH :: ustr
  path_exists :: "ustr \<Rightarrow> bool"
  read_file :: "ustr \<Rightarrow> ustr + ustr"

definition fetch_html_from_url :: "world \<Rightarrow> request list \<Rightarrow> ustr \<Rightarrow> (error + ustr) \<times> request list" where
  "fetch_html_from_url W log url =
     (case http W log url of
        RequestRaised e \<Rightarrow> (Inl (PyException e), log)
      | UrlopenRaised e \<Rightarrow> (Inl (AbortScrapeError (FailedToFetch url e)), log @ [Static url])
      | Content html \<Rightarrow> (Inr html, log @ [Static url]))"

definition fetch_page_with_playwright :: "world \<Rightarrow> request list \<Rightarrow> ustr \<Rightarrow> (error + ustr) \<times> request list" where
  "fetch_page_with_playwright W log url =
     (case browser_page W log url of
        ImportRaised e \<Rightarrow> (Inl (AbortScrapeError (PlaywrightImportFailed e)), log)
      | BrowserRaised e \<Rightarrow> (Inl (AbortScrapeError (PlaywrightFetchFailed e)), log @ [Browser url])
      | Rendered html \<Rightarrow> (Inr html, log @ [Browser url]))"

definition fetch_syutsuba_with_playwright :: "world \<Rightarrow> ustr \<Rightarrow> error + ustr" where
  "fetch_syutsuba_with_playwright W venue_keyword =
     (case browser_syutsuba W venue_keyword of
        ImportRaised e \<Rightarrow> Inl (AbortScrapeError (PlaywrightImportFailed e))
      | BrowserRaised e \<Rightarrow> Inl (AbortScrapeError (PlaywrightNavigationFailed e))
      | Rendered html \<Rightarrow> Inr html)"

definition fetch_all_syutsuba_with_playwright :: "world \<Rightarrow> error + (ustr \<times> ustr) list" where
  "fetch_all_syutsuba_with_playwright W =
     (case browser_all_syutsuba W of
        ImportRaised e \<Rightarrow> Inl (AbortScrapeError (PlaywrightImportFailed e))
      | BrowserRaised e \<Rightarrow> Inl (AbortScrapeError (PlaywrightAllVenuesFailed e))
      | Rendered results \<Rightarrow> Inr results)"

text \<open>\<open>str(e)\<close>, which the horse enrichment stores under \<open>detail_error\<close>.\<close>

fun abort_message :: "abort_reason \<Rightarrow> ustr" where
  "abort_message ScrapingHalted =
     u ''Scraping halted: site likely updating (Tue-Thu 16:00'' @ [38915] @ u '').''"
| "abort_message SyutsubaListNotFound =
     u ''syutsuba_unit_list not found; page structure may have changed.''"
| "abort_message (FailedToFetch url e) = u ''Failed to fetch '' @ url @ u '': '' @ e"
| "abort_message (PlaywrightImportFailed e) = u ''Playwright import failed: '' @ e"
| "abort_message (PlaywrightFetchFailed e) = u ''Playwright fetch failed: '' @ e"
| "abort_message (PlaywrightNavigationFailed e) = u ''Playwright navigation failed: '' @ e"
| "abort_message (PlaywrightAllVenuesFailed e) =
     u ''Playwright navigation failed (all venues): '' @ e"
| "abort_message NoVenueDataFetched = u ''No venue data fetched.''"
| "abort_message VenueKeywordRequired =
     u ''venue_keyword is required when use_playwright is True.''"
| "abort_message (HtmlFileNotFound path) = u ''HTML file not found: '' @ path"

fun str_of_error :: "error \<Rightarrow> ustr" where
  "str_of_error (AbortScrapeError r) = abort_message r"
| "str_of_error (PyException m) = m"

section \<open>The time-window guard\<close>

text \<open>\<open>now.weekday()\<close> counts from Monday = 0.\<close>

definition is_scrape_window_ok :: "world \<Rightarrow> bool" where
  "is_scrape_window_ok W =
     (if now_weekday W \<in> BLOCKED_WEEKDAYS
         \<and> BLOCK_START_HOUR \<le> now_hour W \<and> now_hour W < BLOCK_END_HOUR
      then False else True)"

section \<open>Detail parsers\<close>

definition parse_horse_detail :: "pylib \<Rightarrow> ustr \<Rightarrow> error + pydict" where
  "parse_horse_detail R html =
     (case read_horse_detail R html of
        Inl e \<Rightarrow> Inl (PyException e)
      | Inr d \<Rightarrow>
          Inr [(''father'', PStr (hd_father d)),
               (''mother'', PStr (hd_mother d)),
               (''trainer'', PStr (hd_trainer d)),
               (''birthday'', PStr (hd_birthday d)),
               (''color'', PStr (hd_color d)),
               (''serei'', PStr (hd_serei d)),
               (''pastRaces'', PList (hd_pastRaces d))])"

definition parse_jockey_detail :: "pylib \<Rightarrow> ustr \<Rightarrow> error + pydict" where
  "parse_jockey_detail R html =
     (case read_jockey_detail R html of
        Inl e \<Rightarrow> Inl (PyException e)
      | Inr d \<Rightarrow>
          Inr [(''birthday'', PStr (jd_birthday d)),
               (''height'', PStr (jd_height d)),
               (''weight'', PStr (jd_weight d)),
               (''first_license'', PStr (jd_first_license d)),
               (''stats_current'', jd_stats_current d),
               (''stats_total'', jd_stats_total d)])"

section \<open>Loops over every horse of the flat view\<close>

text \<open>
  \<open>for venue in data["venues"]: for race in venue["races"]: for h in race["horses"]\<close>
  mutates each horse dictionary in place while a state (the request log, the jockey
  cache) runs through the iterations. \<open>map_accum\<close> is such a loop whose body cannot raise,
  \<open>map_accum_r\<close> one whose body can.
\<close>

fun map_accum :: "('s \<Rightarrow> 'a \<Rightarrow> 'b \<times> 's) \<Rightarrow> 's \<Rightarrow> 'a list \<Rightarrow> 'b list \<times> 's" where
  "map_accum f s [] = ([], s)"
| "map_accum f s (x # xs) =
     (case f s x of (y, s1) \<Rightarrow> (case map_accum f s1 xs of (ys, s2) \<Rightarrow> (y # ys, s2)))"

fun map_accum_r :: "('s \<Rightarrow> 'a \<Rightarrow> error + 'b \<times> 's) \<Rightarrow> 's \<Rightarrow> 'a list \<Rightarrow> error + 'b list \<times> 's" where
  "map_accum_r f s [] = Inr ([], s)"
| "map_accum_r f s (x # xs) =
     (case f s x of
        Inl e \<Rightarrow> Inl e
      | Inr (y, s1) \<Rightarrow>
          (case map_accum_r f s1 xs of Inl e \<Rightarrow> Inl e | Inr (ys, s2) \<Rightarrow> Inr (y # ys, s2)))"

definition in_race :: "('s \<Rightarrow> pydict \<Rightarrow> pydict \<times> 's) \<Rightarrow> 's \<Rightarrow> race_dict \<Rightarrow> race_dict \<times> 's" where
  "in_race f s r = (case map_accum f s (race_horses r) of (hs, s') \<Rightarrow> (r\<lparr>race_horses := hs\<rparr>, s'))"

definition in_venue :: "('s \<Rightarrow> pydict \<Rightarrow> pydict \<times> 's) \<Rightarrow> 's \<Rightarrow> venue_dict \<Rightarrow> venue_dict \<times> 's" where
  "in_venue f s v =
     (case map_accum (in_race f) s (venue_races v) of (rs, s') \<Rightarrow> (v\<lparr>venue_races := rs\<rparr>, s'))"

definition for_each_horse ::
  "('s \<Rightarrow> pydict \<Rightarrow> pydict \<times> 's) \<Rightarrow> 's \<Rightarrow> venue_dict list \<Rightarrow> venue_dict list \<times> 's" where
  "for_each_horse f s vs = map_accum (in_venue f) s vs"

definition in_race_r ::
  "('s \<Rightarrow> pydict \<Rightarrow> error + pydict \<times> 's) \<Rightarrow> 's \<Rightarrow> race_dict \<Rightarrow> error + race_dict \<times> 's" where
  "in_race_r f s r =
     (case map_accum_r f s (race_horses r) of
        Inl e \<Rightarrow> Inl e
      | Inr (hs, s') \<Rightarrow> Inr (r\<lparr>race_horses := hs\<rparr>, s'))"

definition in_venue_r ::
  "('s \<Rightarrow> pydict \<Rightarrow> error + pydict \<times> 's) \<Rightarrow> 's \<Rightarrow> venue_dict \<Rightarrow> error + venue_dict \<times> 's" where
  "in_venue_r f s v =
     (case map_accum_r (in_race_r f) s (venue_races v) of
        Inl e \<Rightarrow> Inl e
      | Inr (rs, s') \<Rightarrow> Inr (v\<lparr>venue_races := rs\<rparr>, s'))"

definition for_each_horse_r ::
  "('s \<Rightarrow> pydict \<Rightarrow> error + pydict \<times> 's) \<Rightarrow> 's \<Rightarrow> venue_dict list \<Rightarrow> error + venue_dict list \<times> 's" where
  "for_each_horse_r f s vs = map_accum_r (in_venue_r f) s vs"

text \<open>The horses of a venue list in the order the loops visit them.\<close>

definition horses_of :: "venue_dict list \<Rightarrow> pydict list" where
  "horses_of vs = concat (map (\<lambda>v. concat (map race_horses (venue_races v))) vs)"

section \<open>Horse-detail enrichment\<close>

definition detail_keys :: "string list" where
  "detail_keys = [''father'', ''mother'', ''trainer'', ''birthday'', ''color'', ''serei'']"

text \<open>\<open>if detail.get(key): h[key] = detail[key]\<close>\<close>

definition overwrite_if_present :: "pydict \<Rightarrow> string \<Rightarrow> pydict \<Rightarrow> pydict" where
  "overwrite_if_present detail key h =
     (case map_of detail key of
        None \<Rightarrow> h
      | Some v \<Rightarrow> if truthy v then AList.update key v h else h)"

definition apply_horse_detail :: "pydict \<Rightarrow> pydict \<Rightarrow> pydict" where
  "apply_horse_detail detail h =
     overwrite_if_present detail ''pastRaces'' (fold (overwrite_if_present detail) detail_keys h)"

text \<open>
  The body of the \<open>try\<close> up to the parsed detail: the static fetch and parse, then, on a
  browser-automation run whose static result has no sire and no history, the browser
  fetch and a second parse.
\<close>

definition horse_detail_of ::
  "pylib \<Rightarrow> world \<Rightarrow> bool \<Rightarrow> request list \<Rightarrow> ustr \<Rightarrow> (error + pydict) \<times> request list" where
  "horse_detail_of R W use_playwright log href =
     (case fetch_html_from_url W log href of
        (Inl e, log1) \<Rightarrow> (Inl e, log1)
      | (Inr html_detail, log1) \<Rightarrow>
          (case parse_horse_detail R html_detail of
             Inl e \<Rightarrow> (Inl e, log1)
           | Inr detail \<Rightarrow>
               if use_playwright \<and> \<not> truthy_opt (map_of detail ''father'')
                    \<and> \<not> truthy_opt (map_of detail ''pastRaces'')
               then (case fetch_page_with_playwright W log1 href of
                       (Inl e, log2) \<Rightarrow> (Inl e, log2)
                     | (Inr html2, log2) \<Rightarrow> (parse_horse_detail R html2, log2))
               else (Inr detail, log1)))"

text \<open>
  One iteration of the horse loop. A truthy \<open>detail_url\<close> that is not a string makes
  \<open>urlparse\<close> raise inside the \<open>try\<close>.
\<close>

definition enrich_horse ::
  "pylib \<Rightarrow> world \<Rightarrow> bool \<Rightarrow> request list \<Rightarrow> pydict \<Rightarrow> pydict \<times> request list" where
  "enrich_horse R W use_playwright log h =
     (case map_of h ''detail_url'' of
        None \<Rightarrow> (h, log)
      | Some href \<Rightarrow>
          if \<not> truthy href then (h, log)
          else (case href of
                  PStr url \<Rightarrow>
                    (case horse_detail_of R W use_playwright log url of
                       (Inl e, log') \<Rightarrow> (setdefault ''detail_error'' (PStr (str_of_error e)) h, log')
                     | (Inr detail, log') \<Rightarrow> (apply_horse_detail detail h, log'))
                | _ \<Rightarrow> (setdefault ''detail_error'' (PStr (u ''TypeError'')) h, log)))"

definition enrich_horses ::
  "pylib \<Rightarrow> world \<Rightarrow> bool \<Rightarrow> request list \<Rightarrow> venue_dict list \<Rightarrow> venue_dict list \<times> request list" where
  "enrich_horses R W use_playwright log vs = for_each_horse (enrich_horse R W use_playwright) log vs"

section \<open>Jockey-detail enrichment\<close>

text \<open>A list or a dict is not hashable: using one as a dictionary key raises \<open>TypeError\<close>.\<close>

fun hashable :: "pyval \<Rightarrow> bool" where
  "hashable (PStr s) = True"
| "hashable (PInt i) = True"
| "hashable (PList xs) = False"
| "hashable (PDict d) = False"

definition unhashable_type :: error where
  "unhashable_type = PyException (u ''TypeError: unhashable type'')"

type_synonym jockey_seen = "(pyval \<times> pydict) list"

definition clear_jockey_fields :: "pydict \<Rightarrow> pydict" where
  "clear_jockey_fields h =
     AList.update ''stats_total'' (PDict [])
       (AList.update ''stats_current'' (PDict [])
         (AList.update ''first_license'' (PStr [])
           (AList.update ''weight'' (PStr [])
             (AList.update ''height'' (PStr [])
               (AList.update ''birthday'' (PStr []) h)))))"

definition jockey_detail_of ::
  "pylib \<Rightarrow> world \<Rightarrow> bool \<Rightarrow> request list \<Rightarrow> ustr \<Rightarrow> (error + pydict) \<times> request list" where
  "jockey_detail_of R W use_playwright log url =
     (case fetch_html_from_url W log url of
        (Inl e, log1) \<Rightarrow> (Inl e, log1)
      | (Inr html_j, log1) \<Rightarrow>
          (case parse_jockey_detail R html_j of
             Inl e \<Rightarrow> (Inl e, log1)
           | Inr detail \<Rightarrow>
               if use_playwright \<and> \<not> truthy_opt (map_of detail ''birthday'')
                    \<and> \<not> truthy_opt (map_of detail ''stats_current'')
               then (case fetch_page_with_playwright W log1 url of
                       (Inl e, log2) \<Rightarrow> (Inl e, log2)
                     | (Inr html2, log2) \<Rightarrow> (parse_jockey_detail R html2, log2))
               else (Inr detail, log1)))"

text \<open>
  One iteration of the first jockey loop: clear the six fields, then fetch the jockey's
  page unless the name or the address is empty or the name is already in \<open>jockey_seen\<close>.
  Only a result that was fetched and parsed is stored; \<open>except Exception: continue\<close>
  stores nothing.
\<close>

definition jockey_fetch_step ::
  "pylib \<Rightarrow> world \<Rightarrow> bool \<Rightarrow> jockey_seen \<times> request list \<Rightarrow> pydict
     \<Rightarrow> error + pydict \<times> jockey_seen \<times> request list" where
  "jockey_fetch_step R W use_playwright st h =
     (case st of (seen, log) \<Rightarrow>
        let h1 = clear_jockey_fields h;
            nm = map_of h1 ''jockey'';
            url = map_of h1 ''jockey_url''
        in if \<not> truthy_opt nm \<or> \<not> truthy_opt url then Inr (h1, seen, log)
           else (case nm of
                   None \<Rightarrow> Inr (h1, seen, log)
                 | Some n \<Rightarrow>
                     if \<not> hashable n then Inl unhashable_type
                     else if map_of seen n \<noteq> None then Inr (h1, seen, log)
                     else (case url of
                             Some (PStr a) \<Rightarrow>
                               (case jockey_detail_of R W use_playwright log a of
                                  (Inl e, log') \<Rightarrow> Inr (h1, seen, log')
                                | (Inr detail, log') \<Rightarrow> Inr (h1, AList.update n detail seen, log'))
                           | _ \<Rightarrow> Inr (h1, seen, log))))"

text \<open>One iteration of the second loop: \<open>det = jockey_seen.get(h.get("jockey"))\<close>.\<close>

definition jockey_attach_step :: "jockey_seen \<Rightarrow> pydict \<Rightarrow> error + pydict \<times> jockey_seen" where
  "jockey_attach_step seen h =
     (case map_of h ''jockey'' of
        None \<Rightarrow> Inr (h, seen)
      | Some n \<Rightarrow>
          if \<not> hashable n then Inl unhashable_type
          else (case map_of seen n of
                  None \<Rightarrow> Inr (h, seen)
                | Some det \<Rightarrow> if det \<noteq> [] then Inr (dict_update det h, seen) else Inr (h, seen)))"

definition enrich_jockeys ::
  "pylib \<Rightarrow> world \<Rightarrow> bool \<Rightarrow> request list \<Rightarrow> venue_dict list
     \<Rightarrow> error + venue_dict list \<times> request list" where
  "enrich_jockeys R W use_playwright log vs =
     (case for_each_horse_r (jockey_fetch_step R W use_playwright) ([], log) vs of
        Inl e \<Rightarrow> Inl e
      | Inr (vs1, jockey_seen, log1) \<Rightarrow>
          (case for_each_horse_r jockey_attach_step jockey_seen vs1 of
             Inl e \<Rightarrow> Inl e
           | Inr (vs2, _) \<Rightarrow> Inr (vs2, log1)))"

section \<open>Day blocks as objects\<close>

text \<open>
  The \<open>days\<close> mapping of the aggregate under construction binds a key to a day-block
  object, and two keys may be bound to the same object. The store holds the day-block
  objects; an address is an index into it. A parsed page creates its day block as a new
  object.
\<close>

type_synonym store = "day_block list"

definition load :: "day_block race_data \<Rightarrow> store \<Rightarrow> nat race_data \<times> store" where
  "load d st =
     (\<lparr>date = date d,
       days = zip (map fst (days d)) [length st ..< length st + length (days d)],
       venues = venues d\<rparr>,
      st @ map snd (days d))"

text \<open>What \<open>json.dumps\<close> writes for the aggregate: every address replaced by its block.\<close>

definition json_view :: "store \<Rightarrow> nat race_data \<Rightarrow> day_block race_data" where
  "json_view st d =
     \<lparr>date = date d, days = map (\<lambda>(k, a). (k, st ! a)) (days d), venues = venues d\<rparr>"

section \<open>The all-venues merge\<close>

text \<open>
  \<open>data["venues"][0]["session"] = venue_label\<close> and
  \<open>data["venues"][0]["name"] = data["venues"][0].get("venue") or venue_label\<close>,
  when \<open>data["venues"]\<close> is not empty.
\<close>

definition relabel :: "ustr \<Rightarrow> venue_dict list \<Rightarrow> venue_dict list" where
  "relabel venue_label vs =
     (case vs of
        [] \<Rightarrow> []
      | v # rest \<Rightarrow>
          let e1 = AList.update ''session'' (PStr venue_label) (venue_entries v);
              nm = (case map_of e1 ''venue'' of
                      None \<Rightarrow> PStr venue_label
                    | Some x \<Rightarrow> if truthy x then x else PStr venue_label)
          in v\<lparr>venue_entries := AList.update ''name'' nm e1\<rparr> # rest)"

definition StopIteration :: error where
  "StopIteration = PyException (u ''StopIteration'')"

text \<open>
  The \<open>else\<close> branch of the loop body: \<open>data\<close> merged into an existing \<open>merged\<close>. The
  addresses read here are objects of the store (\<open>addresses_valid\<close> below holds
  throughout the merge), so \<open>st ! m\<close> and \<open>st ! a\<close> are the blocks themselves.
\<close>

definition merge_into :: "nat race_data \<Rightarrow> nat race_data \<Rightarrow> store \<Rightarrow> error + nat race_data \<times> store" where
  "merge_into merged data st =
     (case days data of
        [] \<Rightarrow> Inl StopIteration
      | (day_key, a) # _ \<Rightarrow>
          (case map_of (days merged) day_key of
             None \<Rightarrow>
               Inr (merged\<lparr>days := AList.update day_key a (days merged),
                           venues := venues merged @ venues data\<rparr>, st)
           | Some m \<Rightarrow>
               Inr (merged\<lparr>venues := venues merged @ venues data\<rparr>,
                    st[m := (st ! m)\<lparr>day_venues := day_venues (st ! m) @ day_venues (st ! a)\<rparr>])))"

text \<open>One iteration of the loop over \<open>venues_html\<close>.\<close>

definition merge_step ::
  "pylib \<Rightarrow> nat race_data option \<times> store \<Rightarrow> ustr \<times> ustr
     \<Rightarrow> error + nat race_data option \<times> store" where
  "merge_step R s page =
     (case s of (merged, st) \<Rightarrow>
      case page of (venue_label, html) \<Rightarrow>
        (case parse_syutsuba_html R html of
           Inl e \<Rightarrow> Inl e
         | Inr parsed \<Rightarrow>
             (case load (parsed\<lparr>venues := relabel venue_label (venues parsed)\<rparr>) st of
                (data, st1) \<Rightarrow>
                  (case merged of
                     None \<Rightarrow> Inr (Some data, st1)
                   | Some m \<Rightarrow>
                       (case merge_into m data st1 of
                          Inl e \<Rightarrow> Inl e
                        | Inr (m', st2) \<Rightarrow> Inr (Some m', st2))))))"

fun merge_venues ::
  "pylib \<Rightarrow> nat race_data option \<times> store \<Rightarrow> (ustr \<times> ustr) list
     \<Rightarrow> error + nat race_data option \<times> store" where
  "merge_venues R s [] = Inr s"
| "merge_venues R s (page # rest) =
     (case merge_step R s page of
        Inl e \<Rightarrow> Inl e
      | Inr s1 \<Rightarrow> merge_venues R s1 rest)"

section \<open>Day-key aliasing\<close>

text \<open>
  \<open>if target_day and target_day not in data["days"]:
  data["days"][target_day] = data["days"][next(iter(data["days"]))]\<close>:
  the new key is bound to the address the first key is bound to.
\<close>

definition alias_target_day :: "ustr option \<Rightarrow> nat race_data \<Rightarrow> error + nat race_data" where
  "alias_target_day target d =
     (case target of
        None \<Rightarrow> Inr d
      | Some t \<Rightarrow>
          if t \<noteq> [] \<and> map_of (days d) t = None
          then (case days d of
                  [] \<Rightarrow> Inl StopIteration
                | (first_key, a) # _ \<Rightarrow> Inr (d\<lparr>days := AList.update t a (days d)\<rparr>))
          else Inr d)"

section \<open>The orchestrator\<close>

record args =
  target_day :: "ustr option"
  source_url :: "ustr option"
  html_path :: "ustr option"
  allow_partial :: bool
  venue_keyword :: "ustr option"
  use_playwright :: bool
  all_venues :: bool
  fetch_horse_detail :: bool
  fetch_jockey_detail :: bool

text \<open>What a successful call leaves: the aggregate, the day-block objects, the requests issued.\<close>

type_synonym scraped = "nat race_data \<times> store \<times> request list"

text \<open>The single-page sources: an explicit URL, browser navigation to a venue, a local file.\<close>

definition fetch_without_url :: "world \<Rightarrow> args \<Rightarrow> (error + ustr) \<times> request list" where
  "fetch_without_url W A =
     (if use_playwright A
      then (case venue_keyword A of
              None \<Rightarrow> (Inl (AbortScrapeError VenueKeywordRequired), [])
            | Some kw \<Rightarrow>
                if kw = [] then (Inl (AbortScrapeError VenueKeywordRequired), [])
                else (fetch_syutsuba_with_playwright W kw, []))
      else (let path = (case html_path A of None \<Rightarrow> DEFAULT_HTML_PATH W | Some p \<Rightarrow> p)
            in if \<not> path_exists W path then (Inl (AbortScrapeError (HtmlFileNotFound path)), [])
               else (case read_file W path of
                       Inl e \<Rightarrow> (Inl (PyException e), [])
                     | Inr html \<Rightarrow> (Inr html, []))))"

definition fetch_single :: "world \<Rightarrow> args \<Rightarrow> (error + ustr) \<times> request list" where
  "fetch_single W A =
     (case source_url A of
        None \<Rightarrow> fetch_without_url W A
      | Some url \<Rightarrow> if url \<noteq> [] then fetch_html_from_url W [] url else fetch_without_url W A)"

text \<open>
  FETCH, PARSE and MERGE: the aggregate before any day key is aliased. The all-venues
  branch runs the merge loop from \<open>merged = None\<close>.
\<close>

definition fetch_and_parse :: "pylib \<Rightarrow> world \<Rightarrow> args \<Rightarrow> error + scraped" where
  "fetch_and_parse R W A =
     (if all_venues A
      then (case fetch_all_syutsuba_with_playwright W of
              Inl e \<Rightarrow> Inl e
            | Inr venues_html \<Rightarrow>
                (case merge_venues R (None, []) venues_html of
                   Inl e \<Rightarrow> Inl e
                 | Inr (None, st) \<Rightarrow> Inl (AbortScrapeError NoVenueDataFetched)
                 | Inr (Some merged, st) \<Rightarrow> Inr (merged, st, [])))
      else (case fetch_single W A of
              (Inl e, log) \<Rightarrow> Inl e
            | (Inr html, log) \<Rightarrow>
                (case parse_syutsuba_html R html of
                   Inl e \<Rightarrow> Inl e
                 | Inr parsed \<Rightarrow> (case load parsed [] of (data, st) \<Rightarrow> Inr (data, st, log)))))"

definition scrape_race_data :: "pylib \<Rightarrow> world \<Rightarrow> args \<Rightarrow> error + scraped" where
  "scrape_race_data R W A =
     (if \<not> is_scrape_window_ok W \<and> \<not> allow_partial A
      then Inl (AbortScrapeError ScrapingHalted)
      else
        (case fetch_and_parse R W A of
           Inl e \<Rightarrow> Inl e
         | Inr (d0, st, log0) \<Rightarrow>
             (case (if all_venues A then alias_target_day (target_day A) d0 else Inr d0) of
                Inl e \<Rightarrow> Inl e
              | Inr d1 \<Rightarrow>
                  (case alias_target_day (target_day A) d1 of
                     Inl e \<Rightarrow> Inl e
                   | Inr d2 \<Rightarrow>
                       (case (if fetch_horse_detail A
                              then enrich_horses R W (use_playwright A) log0 (venues d2)
                              else (venues d2, log0)) of
                          (vs3, log3) \<Rightarrow>
                            (case (if fetch_jockey_detail A
                                   then enrich_jockeys R W (use_playwright A) log3 vs3
                                   else Inr (vs3, log3)) of
                               Inl e \<Rightarrow> Inl e
                             | Inr (vs4, log4) \<Rightarrow> Inr (d2\<lparr>venues := vs4\<rparr>, st, log4)))))))"

text \<open>
  The call up to the jockey enrichment: the same guard, fetch, parse, merge, aliasing and
  horse enrichment. \<open>scrape_race_data\<close> is this prefix followed by the block under
  \<open>if fetch_jockey_detail\<close> (lemma \<open>scrape_race_data_stages\<close>).
\<close>

definition scrape_before_jockeys :: "pylib \<Rightarrow> world \<Rightarrow> args \<Rightarrow> error + scraped" where
  "scrape_before_jockeys R W A =
     (if \<not> is_scrape_window_ok W \<and> \<not> allow_partial A
      then Inl (AbortScrapeError ScrapingHalted)
      else
        (case fetch_and_parse R W A of
           Inl e \<Rightarrow> Inl e
         | Inr (d0, st, log0) \<Rightarrow>
             (case (if all_venues A then alias_target_day (target_day A) d0 else Inr d0) of
                Inl e \<Rightarrow> Inl e
              | Inr d1 \<Rightarrow>
                  (case alias_target_day (target_day A) d1 of
                     Inl e \<Rightarrow> Inl e
                   | Inr d2 \<Rightarrow>
                       (case (if fetch_horse_detail A
                              then enrich_horses R W (use_playwright A) log0 (venues d2)
                              else (venues d2, log0)) of
                          (vs3, log3) \<Rightarrow> Inr (d2\<lparr>venues := vs3\<rparr>, st, log3))))))"

section \<open>Sanitization\<close>

text \<open>\<open>for key in ["odds", "detail_url", "jockey_url"]: h.pop(key, None)\<close>\<close>

definition pop_keys :: "pydict \<Rightarrow> pydict" where
  "pop_keys h = fold AList.delete [''odds'', ''detail_url'', ''jockey_url''] h"

definition clean_venues :: "venue_dict list \<Rightarrow> venue_dict list" where
  "clean_venues vs =
     map (\<lambda>v. v\<lparr>venue_races :=
                 map (\<lambda>r. r\<lparr>race_horses := map pop_keys (race_horses r)\<rparr>) (venue_races v)\<rparr>) vs"

text \<open>
  \<open>json.loads(json.dumps(data))\<close> is a copy with the same JSON value, so the function is
  one of the JSON value of its argument. Top-level entries beyond \<open>date\<close>, \<open>days\<close> and
  \<open>venues\<close> (the caller adds \<open>generated_at\<close>) are the record's extension.
\<close>

definition sanitize_race_data ::
  "(day_block, 'z) race_data_scheme \<Rightarrow> (day_block, 'z) race_data_scheme" where
  "sanitize_race_data data =
     (let new_data = data
      in new_data\<lparr>venues := clean_venues (venues new_data),
                  days := map (\<lambda>(k, day). (k, day\<lparr>day_venues := clean_venues (day_venues day)\<rparr>))
                            (days new_data)\<rparr>)"

section \<open>Relations used to state the properties\<close>

text \<open>
  Sanitization, horse by horse: the entries under \<open>odds\<close>, \<open>detail_url\<close> and
  \<open>jockey_url\<close> are gone and every other entry stands as it was, in its place. A race,
  a venue block and a day block are sanitized when their own entries are unchanged and
  their horses are sanitized one by one.
\<close>

definition sanitized_keys :: "string set" where
  "sanitized_keys = {''odds'', ''detail_url'', ''jockey_url''}"

definition horse_sanitized :: "pydict \<Rightarrow> pydict \<Rightarrow> bool" where
  "horse_sanitized h h' = (h' = filter (\<lambda>(k, v). k \<notin> sanitized_keys) h)"

definition race_sanitized :: "race_dict \<Rightarrow> race_dict \<Rightarrow> bool" where
  "race_sanitized r r' =
     (race_entries r' = race_entries r \<and> list_all2 horse_sanitized (race_horses r) (race_horses r'))"

definition venue_sanitized :: "venue_dict \<Rightarrow> venue_dict \<Rightarrow> bool" where
  "venue_sanitized v v' =
     (venue_entries v' = venue_entries v \<and> list_all2 race_sanitized (venue_races v) (venue_races v'))"

definition day_sanitized :: "ustr \<times> day_block \<Rightarrow> ustr \<times> day_block \<Rightarrow> bool" where
  "day_sanitized kb kb' =
     (fst kb' = fst kb \<and> day_date (snd kb') = day_date (snd kb)
      \<and> list_all2 venue_sanitized (day_venues (snd kb)) (day_venues (snd kb')))"

text \<open>
  The flat \<open>venues\<close> view of the merge state (\<open>merged\<close> is \<open>None\<close> before the first page),
  and the venue blocks one page contributes to it.
\<close>

definition flat_venues :: "nat race_data option \<Rightarrow> venue_dict list" where
  "flat_venues merged = (case merged of None \<Rightarrow> [] | Some m \<Rightarrow> venues m)"

definition page_venues :: "pylib \<Rightarrow> ustr \<times> ustr \<Rightarrow> venue_dict list" where
  "page_venues R page =
     (case parse_syutsuba_html R (snd page) of
        Inl e \<Rightarrow> []
      | Inr parsed \<Rightarrow> relabel (fst page) (venues parsed))"

text \<open>Every address the \<open>days\<close> mapping of the merge state holds is an object of the store.\<close>

definition addresses_valid :: "nat race_data option \<times> store \<Rightarrow> bool" where
  "addresses_valid s =
     (case fst s of
        None \<Rightarrow> True
      | Some m \<Rightarrow> list_all (\<lambda>k. case map_of (days m) k of None \<Rightarrow> True | Some a \<Rightarrow> a < length (snd s))
                    (map fst (days m)))"

text \<open>
  Horse enrichment, horse by horse. \<open>detail_for\<close> is the detail the loop obtains for a
  horse when the requests issued so far are \<open>log\<close>: \<open>None\<close> when the horse has no detail
  address or the fetch or the parse raises. \<open>fields_follow detail h h'\<close>: each enrichable
  field of \<open>h'\<close> is the detail's value where that value is non-empty, and the field of \<open>h\<close>
  as it was otherwise.
\<close>

definition enrichable_keys :: "string list" where
  "enrichable_keys = detail_keys @ [''pastRaces'']"

definition detail_for :: "pylib \<Rightarrow> world \<Rightarrow> bool \<Rightarrow> request list \<Rightarrow> pydict \<Rightarrow> pydict option" where
  "detail_for R W pw log h =
     (case map_of h ''detail_url'' of
        Some (PStr url) \<Rightarrow>
          if url = [] then None
          else (case fst (horse_detail_of R W pw log url) of
                  Inl e \<Rightarrow> None
                | Inr detail \<Rightarrow> Some detail)
      | _ \<Rightarrow> None)"

definition fields_follow :: "pydict option \<Rightarrow> pydict \<Rightarrow> pydict \<Rightarrow> bool" where
  "fields_follow detail h h' =
     list_all
       (\<lambda>k. map_of h' k =
          (case detail of
             None \<Rightarrow> map_of h k
           | Some d \<Rightarrow> if truthy_opt (map_of d k) then map_of d k else map_of h k))
       enrichable_keys"

text \<open>
  Jockey enrichment, horse by horse. \<open>jockey_det seen h\<close> is the detail the cache holds for
  the jockey of \<open>h\<close>. \<open>jockey_fields_set seen h h'\<close>: each of the six jockey fields of \<open>h'\<close>
  is the cached detail's value when the cache has the jockey, and empty otherwise; what
  \<open>h\<close> held there does not matter. \<open>seen_parsed\<close>: every cached detail is a result of
  \<open>parse_jockey_detail\<close>.
\<close>

definition jockey_keys :: "string list" where
  "jockey_keys =
     [''birthday'', ''height'', ''weight'', ''first_license'', ''stats_current'', ''stats_total'']"

definition cleared_value :: "string \<Rightarrow> pyval" where
  "cleared_value k = (if k = ''stats_current'' \<or> k = ''stats_total'' then PDict [] else PStr [])"

definition jockey_det :: "jockey_seen \<Rightarrow> pydict \<Rightarrow> pydict option" where
  "jockey_det seen h = (case map_of h ''jockey'' of None \<Rightarrow> None | Some n \<Rightarrow> map_of seen n)"

definition jockey_fields_set :: "jockey_seen \<Rightarrow> pydict \<Rightarrow> pydict \<Rightarrow> bool" where
  "jockey_fields_set seen h h' =
     list_all
       (\<lambda>k. map_of h' k =
          (case jockey_det seen h of
             None \<Rightarrow> Some (cleared_value k)
           | Some det \<Rightarrow> map_of det k))
       jockey_keys"

definition seen_parsed :: "pylib \<Rightarrow> jockey_seen \<Rightarrow> bool" where
  "seen_parsed R seen =
     (\<forall>n det. map_of seen n = Some det \<longrightarrow> (\<exists>html. parse_jockey_detail R html = Inr det))"

text \<open>
  The requests the first jockey loop issues on behalf of one jockey name: what the
  iterations at the horses with that name add to the request log. \<open>fetched_once\<close> is what
  fetching a page once adds: one static request, followed on a browser-automation run by
  at most one browser request.
\<close>

fun jockey_requests ::
  "pylib \<Rightarrow> world \<Rightarrow> bool \<Rightarrow> pyval \<Rightarrow> jockey_seen \<times> request list \<Rightarrow> pydict list
     \<Rightarrow> request list" where
  "jockey_requests R W pw n s [] = []"
| "jockey_requests R W pw n s (h # hs) =
     (case jockey_fetch_step R W pw s h of
        Inl e \<Rightarrow> []
      | Inr (h1, s1) \<Rightarrow>
          (if map_of h ''jockey'' = Some n then drop (length (snd s)) (snd s1) else [])
          @ jockey_requests R W pw n s1 hs)"

definition fetched_once :: "ustr \<Rightarrow> bool \<Rightarrow> request list \<Rightarrow> bool" where
  "fetched_once a pw ext = (ext = [Static a] \<or> (pw \<and> ext = [Static a, Browser a]))"

section \<open>Example inputs\<close>

text \<open>
  A library whose patterns never match and whose HTML parser finds no race item in the
  empty page, one race item without a \<open>.race_header\<close> in the page \<open>h\<close>, and one race
  item with a header (date line U+65E5) and no rows in any other page.
\<close>

definition headerless_item :: li where
  "headerless_item =
     \<lparr>li_id = u ''syutsuba_1R'', li_race_header = None, li_race_name = None,
      li_course = None, li_rows = []\<rparr>"

definition plain_header :: race_header where
  "plain_header =
     \<lparr>date_line_date = Some [26085], date_line_time_strong = None, date_line = None\<rparr>"

definition no_match :: pylib where
  "no_match =
     \<lparr>search_syutsuba_R = (\<lambda>_. None), search_digits = (\<lambda>_. None), search_waku = (\<lambda>_. None),
      search_kai_nichi = (\<lambda>_. None), match_base_date = (\<lambda>_. None),
      search_doAction = (\<lambda>_. None),
      select_race_items =
        (\<lambda>html. if html = [] then []
                 else if html = u ''h'' then [headerless_item]
                 else [headerless_item\<lparr>li_race_header := Some plain_header\<rparr>]),
      read_horse_detail = (\<lambda>_. Inl []), read_jockey_detail = (\<lambda>_. Inl [])\<rparr>"

text \<open>
  A world at a given weekday and hour in which every fetch fails, and a call with every
  argument at its default.
\<close>

definition closed_world :: "nat \<Rightarrow> nat \<Rightarrow> world" where
  "closed_world wd hr =
     \<lparr>now_weekday = wd, now_hour = hr,
      http = (\<lambda>log url. UrlopenRaised (u ''timed out'')),
      browser_page = (\<lambda>log url. BrowserRaised (u ''timed out'')),
      browser_syutsuba = (\<lambda>kw. BrowserRaised (u ''timed out'')),
      browser_all_syutsuba = BrowserRaised (u ''timed out''),
      DEFAULT_HTML_PATH = u ''html.txt'',
      path_exists = (\<lambda>p. False),
      read_file = (\<lambda>p. Inl (u ''No such file''))\<rparr>"

definition default_args :: args where
  "default_args =
     \<lparr>target_day = None, source_url = None, html_path = None, allow_partial = False,
      venue_keyword = None, use_playwright = False, all_venues = False,
      fetch_horse_detail = False, fetch_jockey_detail = False\<rparr>"

text \<open>A Saturday-morning world whose default HTML file holds the page \<open>ok\<close>.\<close>

definition file_world :: world where
  "file_world =
     (closed_world 5 10)\<lparr>path_exists := (\<lambda>p. True), read_file := (\<lambda>p. Inr (u ''ok''))\<rparr>"

text \<open>
  A library whose horse detail page has an empty sire and the dam \<open>Dam Y\<close> and whose
  jockey detail page is filled in; a world whose network serves every address; a horse
  with the sire \<open>Sire X\<close>, a carried weight and a birthday, ridden by \<open>J\<close>; and the
  aggregate's flat view with one venue and one race holding given horses.
\<close>

definition example_lib :: pylib where
  "example_lib =
     no_match\<lparr>read_horse_detail :=
                 (\<lambda>html. Inr \<lparr>hd_father = [], hd_mother = u ''Dam Y'', hd_trainer = [],
                              hd_birthday = [], hd_color = [], hd_serei = [], hd_pastRaces = []\<rparr>),
               read_jockey_detail :=
                 (\<lambda>html. Inr \<lparr>jd_birthday = u ''1990'', jd_height = u ''160'', jd_weight = u ''50'',
                              jd_first_license = u ''2010'', jd_stats_current = PDict [],
                              jd_stats_total = PDict []\<rparr>)\<rparr>"

definition open_world :: world where
  "open_world = (closed_world 5 10)\<lparr>http := (\<lambda>log url. Content url)\<rparr>"

definition example_horse :: pydict where
  "example_horse =
     [(''name'', PStr (u ''H'')), (''weight'', PStr (u ''55.0'')), (''jockey'', PStr (u ''J'')),
      (''jockey_url'', PStr (u ''http://j'')), (''detail_url'', PStr (u ''http://h'')),
      (''father'', PStr (u ''Sire X'')), (''mother'', PStr []), (''birthday'', PStr (u ''2020''))]"

definition example_venues :: "pydict list \<Rightarrow> venue_dict list" where
  "example_venues hs =
     [\<lparr>venue_entries = [], venue_races = [\<lparr>race_entries = [], race_horses = hs\<rparr>]\<rparr>]"

text \<open>
  The date line of a Monday meeting, \<open>2024\<close> U+5E74 \<open>1\<close> U+6708 \<open>8\<close> U+65E5 U+FF08 U+6708
  U+FF09 \<open>1\<close> U+56DE U+4E2D U+5C71 \<open>3\<close> U+65E5: the date, the weekday in brackets, the
  meeting.
\<close>

definition monday_date_line :: ustr where
  "monday_date_line =
     [50, 48, 50, 52, 24180, 49, 26376, 56, 26085, 65288, 26376, 65289,
      49, 22238, 20013, 23665, 51, 26085]"

text \<open>
  A racecard with one race of three horses, each with the carried weight \<open>55.0\<close>, ridden
  by \<open>J\<close> whose page is \<open>http://j\<close>; the library that reads it in every page; a world
  that holds it as the default file and whose network serves every address; and a call
  that asks for the jockey enrichment. In \<open>file_world\<close> the same file is there and the
  network times out.
\<close>

definition example_row :: tr where
  "example_row =
     \<lparr>td_horse = Some (u ''H''), td_age = None, td_waku = None, td_waku_img_alt = None,
      td_horse_a = None,
      td_jockey = Some (u ''J''),
      td_jockey_a = Some \<lparr>a_href = Some (u ''http://j''), a_onclick = None\<rparr>,
      td_num = None, td_weight = Some (u ''55.0''), td_trainer = None, td_odds = None,
      td_h_weight = None\<rparr>"

definition racecard_lib :: pylib where
  "racecard_lib =
     example_lib\<lparr>select_race_items :=
       (\<lambda>html. [\<lparr>li_id = u ''syutsuba_1R'', li_race_header = Some plain_header,
                   li_race_name = None, li_course = None,
                   li_rows = [example_row, example_row, example_row]\<rparr>])\<rparr>"

definition served_world :: world where
  "served_world = file_world\<lparr>http := (\<lambda>log url. Content url)\<rparr>"

definition jockey_args :: args where
  "jockey_args = default_args\<lparr>fetch_jockey_detail := True\<rparr>"

text \<open>
  For the browser fallback: a library whose jockey page parses to empty values, a world
  whose browser renders every page, and a browser-automation call with a venue keyword.
\<close>

definition blank_jockey_lib :: pylib where
  "blank_jockey_lib =
     racecard_lib\<lparr>read_jockey_detail :=
       (\<lambda>html. Inr \<lparr>jd_birthday = [], jd_height = [], jd_weight = [], jd_first_license = [],
                    jd_stats_current = PDict [], jd_stats_total = PDict []\<rparr>)\<rparr>"

definition browser_world :: world where
  "browser_world =
     served_world\<lparr>browser_page := (\<lambda>log url. Rendered url),
                  browser_syutsuba := (\<lambda>kw. Rendered (u ''ok''))\<rparr>"

definition browser_args :: args where
  "browser_args = jockey_args\<lparr>use_playwright := True, venue_keyword := Some (u ''v'')\<rparr>"

section \<open>Properties\<close>

subsection \<open>The weekday key\<close>

text \<open>
  The Saturday character always yields \<open>saturday\<close> and a text with none of the seven
  characters yields \<open>unknown\<close>. A text that contains the day character U+65E5 yields
  \<open>saturday\<close> or \<open>sunday\<close> whatever else it contains.
\<close>

lemma weekday_key_saturday: "22303 \<in> set t \<Longrightarrow> weekday_key t = u ''saturday''"
  by (simp add: weekday_key_def)

lemma weekday_key_unknown:
  "set t \<inter> {22303, 26085, 26376, 28779, 27700, 26408, 37329} = {} \<Longrightarrow> weekday_key t = u ''unknown''"
  by (simp add: weekday_key_def)

lemma weekday_key_day_character:
  "26085 \<in> set t \<Longrightarrow> weekday_key t = u ''saturday'' \<or> weekday_key t = u ''sunday''"
  by (simp add: weekday_key_def)

text \<open>
  C8 (the code at the failing input). The date line of a Monday meeting contains the
  Monday character U+6708, yet \<open>weekday_key\<close> returns \<open>sunday\<close>: the day-of-month
  character U+65E5, which every date line holds, is tested before the characters for
  Monday to Friday, so those five branches are never reached on a date line.
\<close>

theorem weekday_key_monday_date_line:
  "26376 \<in> set monday_date_line \<and> weekday_key monday_date_line = u ''sunday''
   \<and> weekday_key monday_date_line \<noteq> u ''monday''"
  by (simp add: weekday_key_def monday_date_line_def u_def)

subsection \<open>The racecard parser\<close>

lemma parse_race_items_shape:
  assumes "parse_race_items R items = Inr d"
  shows "\<exists>key blk vb v. days d = [(key, blk)] \<and> day_venues blk = [vb] \<and> venues d = [v]"
  using assms
  by (auto simp: parse_race_items_def Let_def split: list.splits sum.splits option.splits)

text \<open>
  C10. Whenever \<open>parse_syutsuba_html\<close> succeeds, the aggregate it returns has exactly one
  key in its \<open>days\<close> mapping and exactly one venue block in its flat \<open>venues\<close> sequence (and
  the one day block holds exactly one venue block).
\<close>

theorem parse_syutsuba_html_one_day_one_venue:
  assumes "parse_syutsuba_html R html = Inr d"
  shows "length (days d) = 1 \<and> length (venues d) = 1
         \<and> list_all (\<lambda>(key, blk). length (day_venues blk) = 1) (days d)"
  using parse_race_items_shape [of R "select_race_items R html" d] assms
  by (auto simp: parse_syutsuba_html_def)

lemma parse_ok_example:
  "\<exists>d. parse_syutsuba_html no_match (u ''ok'') = Inr d"
  by (simp add: parse_syutsuba_html_def parse_race_items_def no_match_def u_def
      headerless_item_def plain_header_def parse_race_li_def Let_def parse_course_def
      extract_venue_from_date_def safe_text_def List.map_filter_def)

theorem parse_syutsuba_html_one_day_one_venue_witness:
  "\<exists>d. parse_syutsuba_html no_match (u ''ok'') = Inr d
       \<and> length (days d) = 1 \<and> length (venues d) = 1
       \<and> list_all (\<lambda>(key, blk). length (day_venues blk) = 1) (days d)"
proof -
  obtain d where d: "parse_syutsuba_html no_match (u ''ok'') = Inr d"
    using parse_ok_example by blast
  from parse_syutsuba_html_one_day_one_venue [OF d] d show ?thesis by blast
qed

lemma parse_race_li_error:
  "parse_race_li R x = Inl e \<Longrightarrow> e = NoneType_has_no_select_one"
  by (auto simp: parse_race_li_def Let_def split: option.splits prod.splits)

lemma map_result_parse_race_li_error:
  "map_result (parse_race_li R) xs = Inl e \<Longrightarrow> e = NoneType_has_no_select_one"
  by (induction xs arbitrary: e) (auto split: sum.splits dest: parse_race_li_error)

lemma parse_race_items_abort:
  assumes "parse_race_items R items = Inl (AbortScrapeError r)"
  shows "items = []"
proof (cases items)
  case Nil
  then show ?thesis .
next
  case (Cons first rest)
  with assms have "map_result (parse_race_li R) items = Inl (AbortScrapeError r)
      \<or> NoneType_has_no_select_one = AbortScrapeError r"
    by (auto simp: parse_race_items_def Let_def split: sum.splits option.splits
        simp del: map_result.simps)
  then show ?thesis
    by (auto simp: NoneType_has_no_select_one_def dest!: map_result_parse_race_li_error)
qed

text \<open>
  The abort condition is raised exactly when the selection of race items is empty; it
  is the only abort condition the parser raises.
\<close>

lemma parse_syutsuba_html_abort_iff:
  "(\<exists>r. parse_syutsuba_html R html = Inl (AbortScrapeError r)) \<longleftrightarrow> select_race_items R html = []"
proof
  assume "\<exists>r. parse_syutsuba_html R html = Inl (AbortScrapeError r)"
  then show "select_race_items R html = []"
    by (auto simp: parse_syutsuba_html_def dest: parse_race_items_abort)
next
  assume "select_race_items R html = []"
  then show "\<exists>r. parse_syutsuba_html R html = Inl (AbortScrapeError r)"
    by (simp add: parse_syutsuba_html_def parse_race_items_def)
qed

text \<open>
  C5 (the code at the failing input). A page whose first race item has no
  \<open>.race_header\<close> element has a race container, yet \<open>parse_syutsuba_html\<close> returns no
  aggregate: it raises \<open>AttributeError\<close>, which is not the abort condition.
\<close>

theorem parse_syutsuba_html_missing_header:
  assumes "select_race_items R html = item # rest" and "li_race_header item = None"
  shows "parse_syutsuba_html R html = Inl NoneType_has_no_select_one"
  using assms
  by (simp add: parse_syutsuba_html_def parse_race_items_def parse_race_li_def Let_def)

theorem parse_syutsuba_html_missing_header_witness:
  "select_race_items no_match (u ''h'') = [headerless_item]
   \<and> li_race_header headerless_item = None
   \<and> parse_syutsuba_html no_match (u ''h'') = Inl NoneType_has_no_select_one
   \<and> (\<forall>r. parse_syutsuba_html no_match (u ''h'') \<noteq> Inl (AbortScrapeError r))
   \<and> (\<forall>d. parse_syutsuba_html no_match (u ''h'') \<noteq> Inr d)"
proof -
  have a: "select_race_items no_match (u ''h'') = headerless_item # []"
    by (simp add: no_match_def u_def)
  have b: "li_race_header headerless_item = None"
    by (simp add: headerless_item_def)
  from parse_syutsuba_html_missing_header [OF a b] a b show ?thesis
    by (simp add: NoneType_has_no_select_one_def)
qed

subsection \<open>Sanitization\<close>

lemma pop_keys_filter: "pop_keys h = filter (\<lambda>(k, v). k \<notin> sanitized_keys) h"
  by (induction h) (auto simp: pop_keys_def sanitized_keys_def AList.delete_eq)

lemma pop_keys_idem: "pop_keys (pop_keys h) = pop_keys h"
  by (simp add: pop_keys_filter)

lemma clean_venues_sanitized: "list_all2 venue_sanitized vs (clean_venues vs)"
  by (simp add: clean_venues_def list_all2_map2 list_all2_same venue_sanitized_def
      race_sanitized_def horse_sanitized_def pop_keys_filter)

lemma clean_venues_idem: "clean_venues (clean_venues vs) = clean_venues vs"
  by (simp add: clean_venues_def o_def pop_keys_idem)

text \<open>
  C1. For every aggregate, \<open>sanitize_race_data\<close> removes exactly the entries \<open>odds\<close>,
  \<open>detail_url\<close> and \<open>jockey_url\<close> from every horse dictionary of the flat \<open>venues\<close> view
  and of every per-day view, leaves every other key and value unchanged (the date, any
  further top-level entry, the day keys, and the entries of every day, venue, race and
  horse), and is idempotent.
\<close>

theorem sanitize_race_data_exact:
  "date (sanitize_race_data d) = date d
   \<and> race_data.more (sanitize_race_data d) = race_data.more d
   \<and> list_all2 venue_sanitized (venues d) (venues (sanitize_race_data d))
   \<and> list_all2 day_sanitized (days d) (days (sanitize_race_data d))
   \<and> sanitize_race_data (sanitize_race_data d) = sanitize_race_data d"
proof -
  have flat: "list_all2 venue_sanitized (venues d) (venues (sanitize_race_data d))"
    by (simp add: sanitize_race_data_def clean_venues_sanitized)
  have per_day: "list_all2 day_sanitized (days d) (days (sanitize_race_data d))"
    by (simp add: sanitize_race_data_def list_all2_map2 list_all2_same day_sanitized_def
        clean_venues_sanitized split_beta)
  have idem: "sanitize_race_data (sanitize_race_data d) = sanitize_race_data d"
    by (simp add: sanitize_race_data_def clean_venues_idem o_def split_beta)
  show ?thesis using flat per_day idem by (simp add: sanitize_race_data_def)
qed

subsection \<open>The time-window guard\<close>

lemma map_accum_r_error:
  "map_accum_r f s xs = Inl e \<Longrightarrow> \<exists>s' x. f s' x = Inl e"
proof (induction xs arbitrary: s)
  case Nil
  then show ?case by simp
next
  case (Cons x xs)
  show ?case
  proof (cases "f s x")
    case (Inl e')
    with Cons.prems show ?thesis by auto
  next
    case (Inr p)
    with Cons.prems have "map_accum_r f (snd p) xs = Inl e"
      by (auto split: sum.splits prod.splits)
    then show ?thesis by (rule Cons.IH)
  qed
qed

lemma for_each_horse_r_error:
  assumes "for_each_horse_r f s vs = Inl e"
  shows "\<exists>s' h. f s' h = Inl e"
proof -
  from assms obtain s1 v where "in_venue_r f s1 v = Inl e"
    unfolding for_each_horse_r_def by (blast dest: map_accum_r_error)
  then have "map_accum_r (in_race_r f) s1 (venue_races v) = Inl e"
    by (auto simp: in_venue_r_def split: sum.splits prod.splits)
  then obtain s2 r where "in_race_r f s2 r = Inl e"
    by (blast dest: map_accum_r_error)
  then have "map_accum_r f s2 (race_horses r) = Inl e"
    by (auto simp: in_race_r_def split: sum.splits prod.splits)
  then show ?thesis by (rule map_accum_r_error)
qed

lemma jockey_fetch_step_error:
  "jockey_fetch_step R W pw s x = Inl e \<Longrightarrow> e = unhashable_type"
  by (auto simp: jockey_fetch_step_def Let_def
      split: prod.splits option.splits if_splits pyval.splits sum.splits)

lemma jockey_attach_step_error:
  "jockey_attach_step s x = Inl e \<Longrightarrow> e = unhashable_type"
  by (auto simp: jockey_attach_step_def split: option.splits if_splits)

lemma enrich_jockeys_error:
  assumes "enrich_jockeys R W pw log vs = Inl e"
  shows "e = unhashable_type"
proof (cases "for_each_horse_r (jockey_fetch_step R W pw) ([], log) vs")
  case (Inl e')
  with assms have "e' = e" by (simp add: enrich_jockeys_def)
  with Inl show ?thesis
    by (blast dest: for_each_horse_r_error jockey_fetch_step_error)
next
  case (Inr p)
  with assms have "for_each_horse_r jockey_attach_step (fst (snd p)) (fst p) = Inl e"
    by (auto simp: enrich_jockeys_def split: sum.splits prod.splits)
  then show ?thesis
    by (blast dest: for_each_horse_r_error jockey_attach_step_error)
qed

lemma parse_syutsuba_html_not_halted:
  "parse_syutsuba_html R html \<noteq> Inl (AbortScrapeError ScrapingHalted)"
proof
  assume a: "parse_syutsuba_html R html = Inl (AbortScrapeError ScrapingHalted)"
  then have "select_race_items R html = []"
    using parse_syutsuba_html_abort_iff by blast
  with a show False
    by (simp add: parse_syutsuba_html_def parse_race_items_def)
qed

lemma merge_step_not_halted:
  "merge_step R s page \<noteq> Inl (AbortScrapeError ScrapingHalted)"
  using parse_syutsuba_html_not_halted [of R "snd page"]
  by (auto simp: merge_step_def merge_into_def StopIteration_def
      split: sum.splits prod.splits option.splits list.splits)

lemma merge_venues_not_halted:
  "merge_venues R s pages \<noteq> Inl (AbortScrapeError ScrapingHalted)"
proof (induction pages arbitrary: s)
  case Nil
  then show ?case by simp
next
  case (Cons page rest)
  then show ?case
    using merge_step_not_halted [of R s page] by (auto split: sum.splits)
qed

lemma fetch_single_not_halted:
  "fst (fetch_single W A) \<noteq> Inl (AbortScrapeError ScrapingHalted)"
  by (auto simp: fetch_single_def fetch_without_url_def fetch_html_from_url_def
      fetch_syutsuba_with_playwright_def Let_def
      split: option.splits response.splits browser.splits sum.splits)

lemma fetch_and_parse_not_halted:
  "fetch_and_parse R W A \<noteq> Inl (AbortScrapeError ScrapingHalted)"
proof (cases "all_venues A")
  case True
  then show ?thesis
    using merge_venues_not_halted [of R]
    by (auto simp: fetch_and_parse_def fetch_all_syutsuba_with_playwright_def
        split: browser.splits sum.splits prod.splits option.splits)
next
  case False
  then show ?thesis
    using fetch_single_not_halted [of W A] parse_syutsuba_html_not_halted [of R]
    by (auto simp: fetch_and_parse_def split: sum.splits prod.splits)
qed

lemma alias_target_day_not_halted:
  "alias_target_day t d \<noteq> Inl (AbortScrapeError ScrapingHalted)"
  by (auto simp: alias_target_day_def StopIteration_def split: option.splits list.splits)

lemma after_guard_not_halted:
  assumes "is_scrape_window_ok W \<or> allow_partial A"
  shows "scrape_race_data R W A \<noteq> Inl (AbortScrapeError ScrapingHalted)"
proof
  assume h: "scrape_race_data R W A = Inl (AbortScrapeError ScrapingHalted)"
  from h assms show False
    using fetch_and_parse_not_halted [of R W A] alias_target_day_not_halted
    by (auto simp: scrape_race_data_def unhashable_type_def
        split: sum.splits prod.splits if_splits dest!: enrich_jockeys_error)
qed

text \<open>
  C4. \<open>scrape_race_data\<close> raises the abort condition of the time-window guard exactly
  when the weekday of the current time is Tuesday, Wednesday or Thursday (1, 2, 3), its
  hour lies in [16, 17) and \<open>allow_partial\<close> is not set. The examples: Wednesday 16:30
  without \<open>allow_partial\<close> is blocked; with \<open>allow_partial\<close>, and at Wednesday 17:00 or
  Friday 16:30, the guard lets the call through.
\<close>

theorem scrape_window_guard:
  "scrape_race_data R W A = Inl (AbortScrapeError ScrapingHalted)
   \<longleftrightarrow> now_weekday W \<in> {1, 2, 3} \<and> 16 \<le> now_hour W \<and> now_hour W < 17 \<and> \<not> allow_partial A"
proof (cases "is_scrape_window_ok W \<or> allow_partial A")
  case True
  then have "scrape_race_data R W A \<noteq> Inl (AbortScrapeError ScrapingHalted)"
    by (rule after_guard_not_halted)
  with True show ?thesis
    by (auto simp: is_scrape_window_ok_def BLOCKED_WEEKDAYS_def BLOCK_START_HOUR_def
        BLOCK_END_HOUR_def split: if_splits)
next
  case False
  then have "scrape_race_data R W A = Inl (AbortScrapeError ScrapingHalted)"
    by (simp add: scrape_race_data_def)
  with False show ?thesis
    by (auto simp: is_scrape_window_ok_def BLOCKED_WEEKDAYS_def BLOCK_START_HOUR_def
        BLOCK_END_HOUR_def split: if_splits)
qed

theorem scrape_window_guard_witness:
  "scrape_race_data no_match (closed_world 2 16) default_args = Inl (AbortScrapeError ScrapingHalted)
   \<and> scrape_race_data no_match (closed_world 2 16) (default_args\<lparr>allow_partial := True\<rparr>)
       \<noteq> Inl (AbortScrapeError ScrapingHalted)
   \<and> scrape_race_data no_match (closed_world 2 17) default_args \<noteq> Inl (AbortScrapeError ScrapingHalted)
   \<and> scrape_race_data no_match (closed_world 4 16) default_args \<noteq> Inl (AbortScrapeError ScrapingHalted)"
  using scrape_window_guard [of no_match "closed_world 2 16" default_args]
    scrape_window_guard [of no_match "closed_world 2 16" "default_args\<lparr>allow_partial := True\<rparr>"]
    scrape_window_guard [of no_match "closed_world 2 17" default_args]
    scrape_window_guard [of no_match "closed_world 4 16" default_args]
  by (simp add: closed_world_def default_args_def)

subsection \<open>The all-venues merge\<close>

lemma load_venues: "load d st = (d', st') \<Longrightarrow> venues d' = venues d"
  by (auto simp: load_def)

lemma merge_into_venues:
  "merge_into m d st = Inr (m', st') \<Longrightarrow> venues m' = venues m @ venues d"
  by (auto simp: merge_into_def split: list.splits option.splits)

lemma merge_step_flat:
  assumes "merge_step R s page = Inr s'"
  shows "flat_venues (fst s') = flat_venues (fst s) @ page_venues R page"
proof -
  obtain merged st where s: "s = (merged, st)" by (cases s)
  obtain venue_label html where pg: "page = (venue_label, html)" by (cases page)
  from assms s pg obtain parsed where p: "parse_syutsuba_html R html = Inr parsed"
    by (auto simp: merge_step_def split: sum.splits)
  obtain data st1 where l: "load (parsed\<lparr>venues := relabel venue_label (venues parsed)\<rparr>) st = (data, st1)"
    by (cases "load (parsed\<lparr>venues := relabel venue_label (venues parsed)\<rparr>) st") auto
  have vd: "venues data = relabel venue_label (venues parsed)"
    using load_venues [OF l] by simp
  have pv: "page_venues R page = relabel venue_label (venues parsed)"
    using p pg by (simp add: page_venues_def)
  show ?thesis
  proof (cases merged)
    case None
    with assms s pg p l have "s' = (Some data, st1)" by (simp add: merge_step_def)
    with None s vd pv show ?thesis by (simp add: flat_venues_def)
  next
    case (Some m)
    with assms s pg p l obtain m' st2 where mi: "merge_into m data st1 = Inr (m', st2)"
      and s': "s' = (Some m', st2)"
      by (auto simp: merge_step_def split: sum.splits prod.splits)
    with Some s vd pv merge_into_venues [OF mi] show ?thesis by (simp add: flat_venues_def)
  qed
qed

lemma merge_venues_flat:
  "merge_venues R s pages = Inr s' \<Longrightarrow>
   flat_venues (fst s') = flat_venues (fst s) @ concat (map (page_venues R) pages)"
proof (induction pages arbitrary: s)
  case Nil
  then show ?case by simp
next
  case (Cons page rest)
  from Cons.prems obtain s1 where a: "merge_step R s page = Inr s1"
    and b: "merge_venues R s1 rest = Inr s'"
    by (auto split: sum.splits)
  from Cons.IH [OF b] merge_step_flat [OF a] show ?case by simp
qed

lemma merge_venues_append:
  "merge_venues R s (xs @ ys) =
     (case merge_venues R s xs of Inl e \<Rightarrow> Inl e | Inr s1 \<Rightarrow> merge_venues R s1 ys)"
  by (induction xs arbitrary: s) (auto split: sum.splits)

lemma merge_step_parses:
  "merge_step R s page = Inr s' \<Longrightarrow> \<exists>d. parse_syutsuba_html R (snd page) = Inr d"
  by (auto simp: merge_step_def split: sum.splits prod.splits)

lemma merge_venues_parses:
  "merge_venues R s pages = Inr s' \<Longrightarrow> page \<in> set pages
   \<Longrightarrow> \<exists>d. parse_syutsuba_html R (snd page) = Inr d"
proof (induction pages arbitrary: s)
  case Nil
  then show ?case by simp
next
  case (Cons p rest)
  from Cons.prems(1) obtain s1 where a: "merge_step R s p = Inr s1"
    and b: "merge_venues R s1 rest = Inr s'"
    by (auto split: sum.splits)
  show ?case
  proof (cases "page = p")
    case True
    with merge_step_parses [OF a] show ?thesis by simp
  next
    case False
    with Cons.prems(2) have "page \<in> set rest" by simp
    with Cons.IH [OF b] show ?thesis by simp
  qed
qed

lemma load_days_nonempty:
  "parse_syutsuba_html R html = Inr parsed \<Longrightarrow> load (parsed\<lparr>venues := vs\<rparr>) st = (data, st1)
   \<Longrightarrow> days data \<noteq> []"
  using parse_race_items_shape [of R "select_race_items R html" parsed]
  by (auto simp: load_def parse_syutsuba_html_def)

lemma merge_into_succeeds: "days d \<noteq> [] \<Longrightarrow> \<exists>r. merge_into m d st = Inr r"
  by (auto simp: merge_into_def split: list.splits option.splits)

lemma merge_step_succeeds:
  assumes "parse_syutsuba_html R (snd page) = Inr parsed"
  shows "\<exists>s'. merge_step R s page = Inr s'"
proof -
  obtain merged st where s: "s = (merged, st)" by (cases s)
  obtain venue_label html where pg: "page = (venue_label, html)" by (cases page)
  obtain data st1 where l: "load (parsed\<lparr>venues := relabel venue_label (venues parsed)\<rparr>) st = (data, st1)"
    by (cases "load (parsed\<lparr>venues := relabel venue_label (venues parsed)\<rparr>) st") auto
  from assms pg have p: "parse_syutsuba_html R html = Inr parsed" by simp
  show ?thesis
  proof (cases merged)
    case None
    with s pg p l show ?thesis by (simp add: merge_step_def)
  next
    case (Some m)
    from merge_into_succeeds [OF load_days_nonempty [OF p l], of m st1]
    obtain r where "merge_into m data st1 = Inr r" by auto
    with Some s pg p l show ?thesis by (cases r) (simp add: merge_step_def)
  qed
qed

lemma merge_venues_succeeds:
  "(\<And>page. page \<in> set pages \<Longrightarrow> \<exists>d. parse_syutsuba_html R (snd page) = Inr d)
   \<Longrightarrow> \<exists>s'. merge_venues R s pages = Inr s'"
proof (induction pages arbitrary: s)
  case Nil
  then show ?case by simp
next
  case (Cons p rest)
  from Cons.prems [of p] obtain parsed where "parse_syutsuba_html R (snd p) = Inr parsed"
    by auto
  from merge_step_succeeds [OF this, of s] obtain s1 where a: "merge_step R s p = Inr s1"
    by auto
  have "\<exists>s'. merge_venues R s1 rest = Inr s'"
    using Cons.IH [of s1] Cons.prems by simp
  with a show ?case by simp
qed

text \<open>
  C7. Split the sequence of fetched pages anywhere into \<open>xs\<close> and \<open>ys\<close>. When the merge of
  the whole sequence in one pass succeeds, so does the merge of \<open>xs\<close>; continuing that
  merge with \<open>ys\<close> gives the result of the one pass; the merge of \<open>ys\<close> on its own succeeds
  as well; and the flat \<open>venues\<close> view of the one pass is the flat view of \<open>xs\<close> followed by
  the flat view of \<open>ys\<close>, so it holds the same set of venues.
\<close>

theorem merge_flat_venues_split:
  assumes "merge_venues R (None, st) (xs @ ys) = Inr (m, st')"
  shows "\<exists>m1 s1 m2 s2.
           merge_venues R (None, st) xs = Inr (m1, s1)
           \<and> merge_venues R (m1, s1) ys = Inr (m, st')
           \<and> merge_venues R (None, st0) ys = Inr (m2, s2)
           \<and> flat_venues m = flat_venues m1 @ flat_venues m2
           \<and> set (flat_venues m) = set (flat_venues m1) \<union> set (flat_venues m2)"
proof -
  from assms obtain m1 s1 where a: "merge_venues R (None, st) xs = Inr (m1, s1)"
    and b: "merge_venues R (m1, s1) ys = Inr (m, st')"
    by (auto simp: merge_venues_append split: sum.splits)
  have "\<And>page. page \<in> set ys \<Longrightarrow> \<exists>d. parse_syutsuba_html R (snd page) = Inr d"
    using merge_venues_parses [OF b] by blast
  then obtain m2 s2 where c: "merge_venues R (None, st0) ys = Inr (m2, s2)"
    using merge_venues_succeeds [of ys R "(None, st0)"] by auto
  have fm: "flat_venues m = flat_venues m1 @ concat (map (page_venues R) ys)"
    using merge_venues_flat [OF b] by simp
  have f2: "flat_venues m2 = concat (map (page_venues R) ys)"
    using merge_venues_flat [OF c] by (simp add: flat_venues_def)
  have eq: "flat_venues m = flat_venues m1 @ flat_venues m2"
    using fm f2 by simp
  then have "set (flat_venues m) = set (flat_venues m1) \<union> set (flat_venues m2)" by simp
  with a b c eq show ?thesis by blast
qed

lemma merge_example:
  "\<exists>m s. merge_venues no_match (None, []) ([(u ''A'', u ''ok'')] @ [(u ''B'', u ''ok''), (u ''C'', u ''ok'')]) = Inr (m, s)"
  by (simp add: parse_syutsuba_html_def parse_race_items_def no_match_def u_def
      headerless_item_def plain_header_def parse_race_li_def Let_def parse_course_def
      extract_venue_from_date_def safe_text_def List.map_filter_def load_def merge_into_def
      weekday_key_def relabel_def extract_base_date_def merge_step_def)

theorem merge_flat_venues_split_witness:
  "\<exists>m st' m1 s1 m2 s2.
     merge_venues no_match (None, []) ([(u ''A'', u ''ok'')] @ [(u ''B'', u ''ok''), (u ''C'', u ''ok'')]) = Inr (m, st')
     \<and> merge_venues no_match (None, []) [(u ''A'', u ''ok'')] = Inr (m1, s1)
     \<and> merge_venues no_match (None, []) [(u ''B'', u ''ok''), (u ''C'', u ''ok'')] = Inr (m2, s2)
     \<and> flat_venues m = flat_venues m1 @ flat_venues m2"
proof -
  obtain m s where a: "merge_venues no_match (None, []) ([(u ''A'', u ''ok'')] @ [(u ''B'', u ''ok''), (u ''C'', u ''ok'')]) = Inr (m, s)"
    using merge_example by blast
  from merge_flat_venues_split [OF a, of "[]"] a show ?thesis by blast
qed

subsection \<open>Day-key aliasing\<close>

lemma addresses_validD:
  assumes "addresses_valid (Some m, st)" and "map_of (days m) k = Some a"
  shows "a < length st"
proof -
  from assms(2) have "k \<in> set (map fst (days m))"
    by (metis map_of_eq_None_iff option.distinct(1) set_map)
  with assms show ?thesis
    by (auto simp: addresses_valid_def list_all_iff split: option.splits)
qed

lemma addresses_validI:
  assumes "\<And>k a. map_of (days m) k = Some a \<Longrightarrow> a < length st"
  shows "addresses_valid (Some m, st)"
  using assms by (auto simp: addresses_valid_def list_all_iff split: option.splits)

lemma load_valid:
  assumes "load d st = (d', st')"
  shows "addresses_valid (Some d', st')" and "length st \<le> length st'"
proof -
  from assms have dd: "days d' = zip (map fst (days d)) [length st ..< length st + length (days d)]"
    and st': "st' = st @ map snd (days d)"
    by (auto simp: load_def)
  show "addresses_valid (Some d', st')"
  proof (rule addresses_validI)
    fix k a
    assume "map_of (days d') k = Some a"
    then have "(k, a) \<in> set (days d')" by (rule map_of_SomeD)
    with dd have "a \<in> set [length st ..< length st + length (days d)]"
      by (auto dest: set_zip_rightD)
    with st' show "a < length st'" by simp
  qed
  from st' show "length st \<le> length st'" by simp
qed

lemma merge_into_valid:
  assumes "merge_into m d st = Inr (m', st')"
    and "addresses_valid (Some m, st)" and "addresses_valid (Some d, st)"
  shows "addresses_valid (Some m', st')"
proof -
  from assms(1) obtain day_key a rest where dd: "days d = (day_key, a) # rest"
    by (auto simp: merge_into_def split: list.splits)
  have a: "a < length st"
    using addresses_validD [OF assms(3), of day_key a] dd by simp
  show ?thesis
  proof (cases "map_of (days m) day_key")
    case None
    with assms(1) dd have m': "days m' = AList.update day_key a (days m)" and st': "st' = st"
      by (auto simp: merge_into_def)
    show ?thesis
    proof (rule addresses_validI)
      fix k b
      assume "map_of (days m') k = Some b"
      with m' have "(k = day_key \<and> b = a) \<or> map_of (days m) k = Some b"
        by (auto simp: update_conv' split: if_splits)
      with a st' addresses_validD [OF assms(2)] show "b < length st'" by auto
    qed
  next
    case (Some x)
    with assms(1) dd have m': "days m' = days m" and st': "length st' = length st"
      by (auto simp: merge_into_def)
    show ?thesis
    proof (rule addresses_validI)
      fix k b
      assume "map_of (days m') k = Some b"
      with m' st' addresses_validD [OF assms(2)] show "b < length st'" by auto
    qed
  qed
qed

lemma addresses_valid_grow:
  assumes "addresses_valid (Some m, st)" and "length st \<le> length st'"
  shows "addresses_valid (Some m, st')"
proof (rule addresses_validI)
  fix k a
  assume "map_of (days m) k = Some a"
  from addresses_validD [OF assms(1) this] assms(2) show "a < length st'" by simp
qed

lemma merge_step_valid:
  assumes "merge_step R s page = Inr s'" and "addresses_valid s"
  shows "addresses_valid s'"
proof -
  obtain merged st where s: "s = (merged, st)" by (cases s)
  obtain venue_label html where pg: "page = (venue_label, html)" by (cases page)
  from assms s pg obtain parsed where p: "parse_syutsuba_html R html = Inr parsed"
    by (auto simp: merge_step_def split: sum.splits)
  obtain data st1 where l: "load (parsed\<lparr>venues := relabel venue_label (venues parsed)\<rparr>) st = (data, st1)"
    by (cases "load (parsed\<lparr>venues := relabel venue_label (venues parsed)\<rparr>) st") auto
  show ?thesis
  proof (cases merged)
    case None
    with assms s pg p l have "s' = (Some data, st1)" by (simp add: merge_step_def)
    with load_valid(1) [OF l] show ?thesis by simp
  next
    case (Some m)
    with assms s pg p l obtain m' st2 where mi: "merge_into m data st1 = Inr (m', st2)"
      and s': "s' = (Some m', st2)"
      by (auto simp: merge_step_def split: sum.splits prod.splits)
    have "addresses_valid (Some m, st1)"
      using assms(2) s Some load_valid(2) [OF l] by (auto intro: addresses_valid_grow)
    from merge_into_valid [OF mi this load_valid(1) [OF l]] s' show ?thesis by simp
  qed
qed

lemma merge_venues_valid:
  "merge_venues R s pages = Inr s' \<Longrightarrow> addresses_valid s \<Longrightarrow> addresses_valid s'"
proof (induction pages arbitrary: s)
  case Nil
  then show ?case by simp
next
  case (Cons page rest)
  from Cons.prems(1) obtain s1 where a: "merge_step R s page = Inr s1"
    and b: "merge_venues R s1 rest = Inr s'"
    by (auto split: sum.splits)
  from Cons.IH [OF b merge_step_valid [OF a Cons.prems(2)]] show ?case .
qed

lemma fetch_and_parse_valid:
  assumes "fetch_and_parse R W A = Inr (d0, st0, log0)"
  shows "addresses_valid (Some d0, st0)"
proof (cases "all_venues A")
  case True
  with assms obtain pages where "merge_venues R (None, []) pages = Inr (Some d0, st0)"
    by (auto simp: fetch_and_parse_def split: sum.splits prod.splits option.splits)
  from merge_venues_valid [OF this] show ?thesis by (simp add: addresses_valid_def)
next
  case False
  with assms obtain parsed where "load parsed [] = (d0, st0)"
    by (auto simp: fetch_and_parse_def split: sum.splits prod.splits)
  from load_valid(1) [OF this] show ?thesis .
qed

lemma alias_target_day_idem:
  "alias_target_day tg d = Inr d1 \<Longrightarrow> alias_target_day tg d1 = Inr d1"
  by (auto simp: alias_target_day_def update_conv' split: option.splits list.splits if_splits)

lemma alias_target_day_binds_first:
  assumes "alias_target_day (Some t) d = Inr d1" and "t \<noteq> []" and "map_of (days d) t = None"
  shows "\<exists>first_key a rest. days d = (first_key, a) # rest
           \<and> map_of (days d1) first_key = Some a \<and> map_of (days d1) t = Some a"
proof -
  from assms obtain first_key a rest where dd: "days d = (first_key, a) # rest"
    and d1: "d1 = d\<lparr>days := AList.update t a (days d)\<rparr>"
    by (auto simp: alias_target_day_def split: list.splits)
  from assms(3) dd have "t \<noteq> first_key" by auto
  with dd d1 have "map_of (days d1) first_key = Some a \<and> map_of (days d1) t = Some a"
    by (simp add: update_conv')
  with dd show ?thesis by blast
qed

lemma scrape_race_data_days:
  assumes "scrape_race_data R W A = Inr (d, st, log)"
    and "fetch_and_parse R W A = Inr (d0, st0, log0)"
  shows "st = st0 \<and> (\<exists>d2. alias_target_day (target_day A) d0 = Inr d2 \<and> days d = days d2)"
proof -
  from assms obtain d1 d2 where
    d1: "(if all_venues A then alias_target_day (target_day A) d0 else Inr d0) = Inr d1"
    and d2: "alias_target_day (target_day A) d1 = Inr d2"
    and dd: "days d = days d2" and st: "st = st0"
    by (auto simp: scrape_race_data_def split: sum.splits prod.splits if_splits)
  have "alias_target_day (target_day A) d0 = Inr d2"
  proof (cases "all_venues A")
    case True
    with d1 have a: "alias_target_day (target_day A) d0 = Inr d1" by simp
    from alias_target_day_idem [OF a] d2 have "d2 = d1" by simp
    with a show ?thesis by simp
  next
    case False
    with d1 d2 show ?thesis by simp
  qed
  with dd st show ?thesis by blast
qed

lemma map_of_map_values:
  "map_of (map (\<lambda>(k, a). (k, f a)) xs) k = map_option f (map_of xs k)"
  by (induction xs) auto

lemma json_view_lookup:
  "map_of (days (json_view st d)) k = map_option (\<lambda>a. st ! a) (map_of (days d) k)"
  by (simp add: json_view_def map_of_map_values)

text \<open>
  C6. When the requested target day is not a key of the parsed or merged result, a
  successful \<open>scrape_race_data\<close> binds that key to the very object the first present day
  key is bound to: both keys hold the same address, that address is an object of the
  store, and the store is the one the parse left (no copy of the block is made). The
  JSON document of the result therefore shows the same block under both keys.
\<close>

theorem target_day_alias_is_first_block:
  assumes "scrape_race_data R W A = Inr (d, st, log)"
    and "fetch_and_parse R W A = Inr (d0, st0, log0)"
    and "target_day A = Some t" and "t \<noteq> []" and "map_of (days d0) t = None"
  shows "\<exists>first_key a rest. days d0 = (first_key, a) # rest
           \<and> map_of (days d) first_key = Some a \<and> map_of (days d) t = Some a
           \<and> st = st0 \<and> a < length st
           \<and> map_of (days (json_view st d)) t = map_of (days (json_view st d)) first_key"
proof -
  from scrape_race_data_days [OF assms(1,2)] assms(3) obtain d2 where
    al: "alias_target_day (Some t) d0 = Inr d2" and dd: "days d = days d2" and st: "st = st0"
    by auto
  from alias_target_day_binds_first [OF al assms(4,5)] obtain first_key a rest where
    f: "days d0 = (first_key, a) # rest" and k: "map_of (days d2) first_key = Some a"
    and t: "map_of (days d2) t = Some a"
    by blast
  have "a < length st0"
    using addresses_validD [OF fetch_and_parse_valid [OF assms(2)], of first_key a] f by simp
  with f k t dd st show ?thesis by (simp add: json_view_lookup)
qed

lemma file_fetch_and_parse:
  "\<exists>st0. fetch_and_parse no_match file_world (default_args\<lparr>target_day := Some (u ''saturday'')\<rparr>)
         = Inr (\<lparr>date = [26085], days = [(u ''sunday'', 0)],
                 venues = [\<lparr>venue_entries = [(''name'', PStr []), (''session'', PStr [26085])],
                            venue_races = [\<lparr>race_entries = [(''id'', PStr (u ''unknown'')), (''raceNum'', PInt 0),
                              (''time'', PStr []), (''title'', PStr []), (''status'', PStr (u ''upcoming'')),
                              (''course_distance'', PStr []), (''surface'', PStr [])], race_horses = []\<rparr>]\<rparr>]\<rparr>, st0, [])"
  by (simp add: fetch_and_parse_def fetch_single_def fetch_without_url_def file_world_def
      closed_world_def default_args_def
      parse_syutsuba_html_def parse_race_items_def no_match_def u_def
      headerless_item_def plain_header_def parse_race_li_def Let_def parse_course_def
      extract_venue_from_date_def safe_text_def List.map_filter_def load_def
      weekday_key_def extract_base_date_def flat_race_def)

lemma file_scrape:
  "\<exists>d st log. scrape_race_data no_match file_world (default_args\<lparr>target_day := Some (u ''saturday'')\<rparr>)
         = Inr (d, st, log)"
  using file_fetch_and_parse
  by (auto simp: scrape_race_data_def is_scrape_window_ok_def file_world_def closed_world_def
      default_args_def BLOCKED_WEEKDAYS_def alias_target_day_def u_def)

theorem target_day_alias_is_first_block_witness:
  "\<exists>d st log a.
     scrape_race_data no_match file_world (default_args\<lparr>target_day := Some (u ''saturday'')\<rparr>)
       = Inr (d, st, log)
     \<and> map_of (days d) (u ''sunday'') = Some a \<and> map_of (days d) (u ''saturday'') = Some a
     \<and> a < length st"
proof -
  let ?A = "default_args\<lparr>target_day := Some (u ''saturday'')\<rparr>"
  obtain d st log where s: "scrape_race_data no_match file_world ?A = Inr (d, st, log)"
    using file_scrape by blast
  obtain d0 st0 where f: "fetch_and_parse no_match file_world ?A = Inr (d0, st0, [])"
    and dd: "days d0 = [(u ''sunday'', 0)]"
    using file_fetch_and_parse by fastforce
  have t: "target_day ?A = Some (u ''saturday'')" by simp
  have ne: "u ''saturday'' \<noteq> []" by (simp add: u_def)
  have ab: "map_of (days d0) (u ''saturday'') = None" using dd by (simp add: u_def)
  from target_day_alias_is_first_block [OF s f t ne ab] dd s show ?thesis by auto
qed

subsection \<open>Loops over the horses\<close>

lemma map_accum_append:
  "map_accum f s (xs @ ys) =
     (case map_accum f s xs of (xs', s1) \<Rightarrow>
        (case map_accum f s1 ys of (ys', s2) \<Rightarrow> (xs' @ ys', s2)))"
  by (induction xs arbitrary: s) (auto split: prod.splits)

lemma map_accum_rel:
  assumes "\<And>s x y s'. f s x = (y, s') \<Longrightarrow> P x y"
  shows "map_accum f s xs = (ys, s') \<Longrightarrow> list_all2 P xs ys"
proof (induction xs arbitrary: s ys s')
  case Nil
  then show ?case by simp
next
  case (Cons x xs)
  obtain y s1 where a: "f s x = (y, s1)" by (cases "f s x")
  obtain ys1 s2 where b: "map_accum f s1 xs = (ys1, s2)" by (cases "map_accum f s1 xs")
  from Cons.prems a b have "ys = y # ys1" by simp
  with assms [OF a] Cons.IH [OF b] show ?case by simp
qed

lemma in_races_flat:
  "map_accum (in_race f) s rs = (rs', s')
   \<Longrightarrow> map_accum f s (concat (map race_horses rs)) = (concat (map race_horses rs'), s')"
proof (induction rs arbitrary: s rs' s')
  case Nil
  then show ?case by simp
next
  case (Cons r rs)
  obtain hs s1 where a: "map_accum f s (race_horses r) = (hs, s1)"
    by (cases "map_accum f s (race_horses r)")
  obtain rs1 s2 where b: "map_accum (in_race f) s1 rs = (rs1, s2)"
    by (cases "map_accum (in_race f) s1 rs")
  have "in_race f s r = (r\<lparr>race_horses := hs\<rparr>, s1)"
    using a by (simp add: in_race_def)
  with Cons.prems b have c: "rs' = r\<lparr>race_horses := hs\<rparr> # rs1" and d: "s' = s2"
    by auto
  from Cons.IH [OF b] a c d show ?case by (simp add: map_accum_append)
qed

lemma for_each_horse_flat:
  "for_each_horse f s vs = (vs', s') \<Longrightarrow> map_accum f s (horses_of vs) = (horses_of vs', s')"
  unfolding for_each_horse_def
proof (induction vs arbitrary: s vs' s')
  case Nil
  then show ?case by (simp add: horses_of_def)
next
  case (Cons v vs)
  obtain rs s1 where a: "map_accum (in_race f) s (venue_races v) = (rs, s1)"
    by (cases "map_accum (in_race f) s (venue_races v)")
  obtain vs1 s2 where b: "map_accum (in_venue f) s1 vs = (vs1, s2)"
    by (cases "map_accum (in_venue f) s1 vs")
  have "in_venue f s v = (v\<lparr>venue_races := rs\<rparr>, s1)"
    using a by (simp add: in_venue_def)
  with Cons.prems b have c: "vs' = v\<lparr>venue_races := rs\<rparr> # vs1" and d: "s' = s2"
    by auto
  from Cons.IH [OF b] in_races_flat [OF a] c d show ?case
    by (simp add: horses_of_def map_accum_append)
qed

subsection \<open>Horse-detail enrichment\<close>

lemma overwrite_if_present_lookup:
  "map_of (overwrite_if_present detail key h) k =
     (if k = key \<and> truthy_opt (map_of detail k) then map_of detail k else map_of h k)"
  by (auto simp: overwrite_if_present_def update_conv' split: option.splits)

lemma fold_overwrite_lookup:
  "map_of (fold (overwrite_if_present detail) keys h) k =
     (if k \<in> set keys \<and> truthy_opt (map_of detail k) then map_of detail k else map_of h k)"
  by (induction keys arbitrary: h) (auto simp: overwrite_if_present_lookup)

lemma apply_horse_detail_lookup:
  "map_of (apply_horse_detail detail h) k =
     (if k \<in> set enrichable_keys \<and> truthy_opt (map_of detail k) then map_of detail k
      else map_of h k)"
  by (auto simp: apply_horse_detail_def enrichable_keys_def overwrite_if_present_lookup
      fold_overwrite_lookup)

lemma setdefault_lookup:
  "k \<noteq> key \<Longrightarrow> map_of (setdefault key v h) k = map_of h k"
  by (auto simp: setdefault_def update_conv' split: option.splits)

lemma enrich_horse_fields:
  assumes "enrich_horse R W pw log h = (h', log')"
  shows "fields_follow (detail_for R W pw log h) h h'"
proof (cases "detail_for R W pw log h")
  case None
  have "k \<in> set enrichable_keys \<Longrightarrow> map_of h' k = map_of h k" for k
    using assms None
    by (auto simp: enrich_horse_def detail_for_def enrichable_keys_def detail_keys_def
        setdefault_lookup split: option.splits pyval.splits if_splits sum.splits prod.splits)
  with None show ?thesis by (simp add: fields_follow_def list_all_iff)
next
  case (Some d)
  then obtain url where url: "map_of h ''detail_url'' = Some (PStr url)" "url \<noteq> []"
    and d: "fst (horse_detail_of R W pw log url) = Inr d"
    by (auto simp: detail_for_def split: option.splits pyval.splits if_splits sum.splits)
  with assms have "h' = apply_horse_detail d h"
    by (auto simp: enrich_horse_def split: prod.splits sum.splits)
  with Some show ?thesis
    by (simp add: fields_follow_def list_all_iff apply_horse_detail_lookup)
qed

text \<open>
  C2. In the horse-detail enrichment of \<open>scrape_race_data\<close> (\<open>enrich_horses\<close>, the block
  under \<open>if fetch_horse_detail\<close>), every horse of the flat view
  comes out with each of its fields \<open>father\<close>, \<open>mother\<close>, \<open>trainer\<close>, \<open>birthday\<close>, \<open>color\<close>,
  \<open>serei\<close> and \<open>pastRaces\<close> overwritten only where the detail parsed for that horse has a
  non-empty value: a field whose detail value is empty, and every field of a horse whose
  detail could not be obtained, is as it was. (The example: the stored sire \<open>Sire X\<close>
  stays when the detail has an empty sire.)
\<close>

theorem horse_enrichment_never_blanks:
  assumes "enrich_horses R W pw log vs = (vs', log')"
  shows "list_all2 (\<lambda>h h'. \<exists>log1. fields_follow (detail_for R W pw log1 h) h h')
           (horses_of vs) (horses_of vs')"
proof -
  from assms have "map_accum (enrich_horse R W pw) log (horses_of vs) = (horses_of vs', log')"
    unfolding enrich_horses_def by (rule for_each_horse_flat)
  then show ?thesis
    by (rule map_accum_rel [rotated]) (blast dest: enrich_horse_fields)
qed

lemma example_enrich:
  "enrich_horses example_lib open_world False [] (example_venues [example_horse])
     = (example_venues [AList.update ''mother'' (PStr (u ''Dam Y'')) example_horse],
        [Static (u ''http://h'')])"
  by (simp add: enrich_horses_def for_each_horse_def in_venue_def in_race_def example_venues_def
      enrich_horse_def example_horse_def horse_detail_of_def fetch_html_from_url_def
      open_world_def closed_world_def parse_horse_detail_def example_lib_def no_match_def
      apply_horse_detail_def detail_keys_def overwrite_if_present_def u_def)

theorem horse_enrichment_never_blanks_witness:
  "enrich_horses example_lib open_world False [] (example_venues [example_horse])
     = (example_venues [AList.update ''mother'' (PStr (u ''Dam Y'')) example_horse],
        [Static (u ''http://h'')])
   \<and> list_all2 (\<lambda>h h'. \<exists>log1. fields_follow (detail_for example_lib open_world False log1 h) h h')
        [example_horse] [AList.update ''mother'' (PStr (u ''Dam Y'')) example_horse]
   \<and> map_of (AList.update ''mother'' (PStr (u ''Dam Y'')) example_horse) ''father''
       = Some (PStr (u ''Sire X''))"
  using horse_enrichment_never_blanks [OF example_enrich] example_enrich
  by (simp add: horses_of_def example_venues_def example_horse_def)

subsection \<open>Loops over the horses that may raise\<close>

lemma map_accum_r_append:
  "map_accum_r f s (xs @ ys) =
     (case map_accum_r f s xs of
        Inl e \<Rightarrow> Inl e
      | Inr (xs', s1) \<Rightarrow>
          (case map_accum_r f s1 ys of Inl e \<Rightarrow> Inl e | Inr (ys', s2) \<Rightarrow> Inr (xs' @ ys', s2)))"
  by (induction xs arbitrary: s) (auto split: sum.splits prod.splits)

lemma map_accum_r_Cons_Inr:
  assumes "map_accum_r f s (x # xs) = Inr (zs, s')"
  obtains y s1 ys where "f s x = Inr (y, s1)" and "map_accum_r f s1 xs = Inr (ys, s')"
    and "zs = y # ys"
  using assms by (auto split: sum.splits prod.splits)

lemma map_accum_r_inv:
  assumes step: "\<And>s x y s'. f s x = Inr (y, s') \<Longrightarrow> I s \<Longrightarrow> P x y \<and> I s'"
  shows "map_accum_r f s xs = Inr (ys, s') \<Longrightarrow> I s \<Longrightarrow> list_all2 P xs ys \<and> I s'"
proof (induction xs arbitrary: s ys s')
  case Nil
  then show ?case by simp
next
  case (Cons x xs)
  from Cons.prems(1) obtain y s1 ys1 where a: "f s x = Inr (y, s1)"
    and b: "map_accum_r f s1 xs = Inr (ys1, s')" and c: "ys = y # ys1"
    by (rule map_accum_r_Cons_Inr)
  from step [OF a Cons.prems(2)] have "P x y" and "I s1" by simp_all
  with Cons.IH [OF b] c show ?case by simp
qed

lemma in_races_r_flat:
  "map_accum_r (in_race_r f) s rs = Inr (rs', s')
   \<Longrightarrow> map_accum_r f s (concat (map race_horses rs)) = Inr (concat (map race_horses rs'), s')"
proof (induction rs arbitrary: s rs' s')
  case Nil
  then show ?case by simp
next
  case (Cons r rs)
  from Cons.prems obtain r1 s1 rs1 where a: "in_race_r f s r = Inr (r1, s1)"
    and b: "map_accum_r (in_race_r f) s1 rs = Inr (rs1, s')" and c: "rs' = r1 # rs1"
    by (rule map_accum_r_Cons_Inr)
  from a obtain hs where d: "map_accum_r f s (race_horses r) = Inr (hs, s1)"
    and e: "r1 = r\<lparr>race_horses := hs\<rparr>"
    by (auto simp: in_race_r_def split: sum.splits prod.splits)
  from Cons.IH [OF b] c d e show ?case by (simp add: map_accum_r_append)
qed

lemma for_each_horse_r_flat:
  "for_each_horse_r f s vs = Inr (vs', s')
   \<Longrightarrow> map_accum_r f s (horses_of vs) = Inr (horses_of vs', s')"
  unfolding for_each_horse_r_def
proof (induction vs arbitrary: s vs' s')
  case Nil
  then show ?case by (simp add: horses_of_def)
next
  case (Cons v vs)
  from Cons.prems obtain v1 s1 vs1 where a: "in_venue_r f s v = Inr (v1, s1)"
    and b: "map_accum_r (in_venue_r f) s1 vs = Inr (vs1, s')" and c: "vs' = v1 # vs1"
    by (rule map_accum_r_Cons_Inr)
  from a obtain rs where d: "map_accum_r (in_race_r f) s (venue_races v) = Inr (rs, s1)"
    and e: "v1 = v\<lparr>venue_races := rs\<rparr>"
    by (auto simp: in_venue_r_def split: sum.splits prod.splits)
  from Cons.IH [OF b] in_races_r_flat [OF d] c e show ?case
    by (simp add: horses_of_def map_accum_r_append)
qed

subsection \<open>Jockey-detail enrichment\<close>

lemma clear_jockey_fields_lookup:
  "map_of (clear_jockey_fields h) k = (if k \<in> set jockey_keys then Some (cleared_value k) else map_of h k)"
  by (simp add: clear_jockey_fields_def jockey_keys_def cleared_value_def update_conv')

lemma parsed_detail_lookup:
  assumes "parse_jockey_detail R html = Inr det"
  shows "det \<noteq> []"
    and "map_of (dict_update det h) k = (if k \<in> set jockey_keys then map_of det k else map_of h k)"
  using assms
  by (auto simp: parse_jockey_detail_def dict_update_def jockey_keys_def update_conv'
      split: sum.splits)

lemma jockey_detail_of_parsed:
  "jockey_detail_of R W pw lg a = (Inr det, lg') \<Longrightarrow> \<exists>html. parse_jockey_detail R html = Inr det"
  by (auto simp: jockey_detail_of_def split: prod.splits sum.splits if_splits)

lemma jockey_fetch_step_result:
  assumes "jockey_fetch_step R W pw s h = Inr (h1, s')" and "seen_parsed R (fst s)"
  shows "h1 = clear_jockey_fields h \<and> seen_parsed R (fst s')"
proof -
  obtain seen lg where s: "s = (seen, lg)" by (cases s)
  from assms(1) s have h1: "h1 = clear_jockey_fields h"
    by (auto simp: jockey_fetch_step_def Let_def
        split: if_splits option.splits pyval.splits prod.splits sum.splits)
  from assms s have "seen_parsed R (fst s')"
    by (auto simp: jockey_fetch_step_def Let_def seen_parsed_def update_conv'
        dest!: jockey_detail_of_parsed
        split: if_splits option.splits pyval.splits prod.splits sum.splits)
  with h1 show ?thesis by simp
qed

lemma jockey_attach_step_state:
  "jockey_attach_step seen h = Inr (h', seen') \<Longrightarrow> seen' = seen"
  by (auto simp: jockey_attach_step_def split: option.splits if_splits)

lemma jockey_attach_step_result:
  assumes "jockey_attach_step seen h1 = Inr (h', seen')" and "seen_parsed R seen"
    and "h1 = clear_jockey_fields h"
  shows "jockey_fields_set seen h h' \<and> map_of h' ''jockey'' = map_of h ''jockey'' \<and> seen' = seen"
proof -
  have j: "map_of h1 ''jockey'' = map_of h ''jockey''"
    using assms(3) by (simp add: clear_jockey_fields_lookup jockey_keys_def)
  then have jd: "jockey_det seen h1 = jockey_det seen h" by (simp add: jockey_det_def)
  show ?thesis
  proof (cases "jockey_det seen h")
    case None
    with assms(1) jd have "h' = h1" and "seen' = seen"
      by (auto simp: jockey_attach_step_def jockey_det_def split: option.splits if_splits)
    with None j assms(3) show ?thesis
      by (simp add: jockey_fields_set_def list_all_iff clear_jockey_fields_lookup)
  next
    case (Some det)
    then obtain n where n: "map_of h ''jockey'' = Some n" and sn: "map_of seen n = Some det"
      by (auto simp: jockey_det_def split: option.splits)
    from assms(2) sn obtain html where p: "parse_jockey_detail R html = Inr det"
      by (auto simp: seen_parsed_def)
    from assms(1) j n sn parsed_detail_lookup(1) [OF p]
    have h': "h' = dict_update det h1" and "seen' = seen"
      by (auto simp: jockey_attach_step_def split: option.splits if_splits)
    with Some j show ?thesis
      by (simp add: jockey_fields_set_def list_all_iff parsed_detail_lookup(2) [OF p]
          jockey_keys_def)
  qed
qed

lemma enrich_jockeys_result:
  assumes "enrich_jockeys R W pw log vs = Inr (vs', log')"
  shows "\<exists>vs1 seen.
           for_each_horse_r (jockey_fetch_step R W pw) ([], log) vs = Inr (vs1, seen, log')
           \<and> seen_parsed R seen
           \<and> list_all2 (\<lambda>h h'. jockey_fields_set seen h h' \<and> map_of h' ''jockey'' = map_of h ''jockey'')
               (horses_of vs) (horses_of vs')"
proof -
  from assms obtain vs1 seen seen' where
    a: "for_each_horse_r (jockey_fetch_step R W pw) ([], log) vs = Inr (vs1, seen, log')"
    and b: "for_each_horse_r jockey_attach_step seen vs1 = Inr (vs', seen')"
    by (auto simp: enrich_jockeys_def split: sum.splits prod.splits)
  have a': "map_accum_r (jockey_fetch_step R W pw) ([], log) (horses_of vs)
             = Inr (horses_of vs1, seen, log')"
    using for_each_horse_r_flat [OF a] .
  have b': "map_accum_r jockey_attach_step seen (horses_of vs1) = Inr (horses_of vs', seen')"
    using for_each_horse_r_flat [OF b] .
  have first: "list_all2 (\<lambda>h h1. h1 = clear_jockey_fields h) (horses_of vs) (horses_of vs1)
                \<and> seen_parsed R (fst (seen, log'))"
    by (rule map_accum_r_inv [where I = "\<lambda>s. seen_parsed R (fst s)", OF _ a'])
       (auto dest: jockey_fetch_step_result simp: seen_parsed_def)
  then have sp: "seen_parsed R seen" by simp
  have second: "list_all2
                  (\<lambda>h1 h'. \<forall>h. h1 = clear_jockey_fields h \<longrightarrow>
                     jockey_fields_set seen h h' \<and> map_of h' ''jockey'' = map_of h ''jockey'')
                  (horses_of vs1) (horses_of vs')
                \<and> seen' = seen"
    by (rule map_accum_r_inv [where I = "\<lambda>s. s = seen", OF _ b'])
       (use sp in \<open>auto dest: jockey_attach_step_result jockey_attach_step_state\<close>)
  have "list_all2 (\<lambda>h h'. jockey_fields_set seen h h' \<and> map_of h' ''jockey'' = map_of h ''jockey'')
          (horses_of vs) (horses_of vs')"
  proof (rule list_all2_trans)
    show "list_all2 (\<lambda>h h1. h1 = clear_jockey_fields h) (horses_of vs) (horses_of vs1)"
      using first by simp
    show "list_all2
            (\<lambda>h1 h'. \<forall>h. h1 = clear_jockey_fields h \<longrightarrow>
               jockey_fields_set seen h h' \<and> map_of h' ''jockey'' = map_of h ''jockey'')
            (horses_of vs1) (horses_of vs')"
      using second by simp
  qed simp
  with a sp show ?thesis by blast
qed

lemmas jockey_run_defs =
  enrich_jockeys_def for_each_horse_r_def in_venue_r_def in_race_r_def example_venues_def
  jockey_fetch_step_def jockey_attach_step_def clear_jockey_fields_def example_horse_def
  jockey_detail_of_def fetch_html_from_url_def closed_world_def open_world_def
  parse_jockey_detail_def example_lib_def no_match_def dict_update_def u_def Let_def
  horses_of_def

subsection \<open>The enrichment stages inside the orchestrator\<close>

lemma scrape_race_data_stages:
  "scrape_race_data R W A =
     (case scrape_before_jockeys R W A of
        Inl e \<Rightarrow> Inl e
      | Inr (d3, st, log3) \<Rightarrow>
          (case (if fetch_jockey_detail A
                 then enrich_jockeys R W (use_playwright A) log3 (venues d3)
                 else Inr (venues d3, log3)) of
             Inl e \<Rightarrow> Inl e
           | Inr (vs4, log4) \<Rightarrow> Inr (d3\<lparr>venues := vs4\<rparr>, st, log4)))"
proof (cases "\<not> is_scrape_window_ok W \<and> \<not> allow_partial A")
  case True
  then show ?thesis by (simp add: scrape_race_data_def scrape_before_jockeys_def)
next
  case open_window: False
  show ?thesis
  proof (cases "fetch_and_parse R W A")
    case (Inl e)
    with open_window show ?thesis
      by (auto simp: scrape_race_data_def scrape_before_jockeys_def)
  next
    case (Inr p)
    obtain d0 st log0 where p: "p = (d0, st, log0)" by (cases p)
    show ?thesis
    proof (cases "if all_venues A then alias_target_day (target_day A) d0 else Inr d0")
      case (Inl e)
      with open_window Inr p show ?thesis
        by (auto simp: scrape_race_data_def scrape_before_jockeys_def)
    next
      case first: (Inr d1)
      show ?thesis
      proof (cases "alias_target_day (target_day A) d1")
        case (Inl e)
        with open_window Inr p first show ?thesis
          by (auto simp: scrape_race_data_def scrape_before_jockeys_def)
      next
        case second: (Inr d2)
        obtain vs3 log3 where h: "(if fetch_horse_detail A
              then enrich_horses R W (use_playwright A) log0 (venues d2)
              else (venues d2, log0)) = (vs3, log3)"
          by (cases "if fetch_horse_detail A
              then enrich_horses R W (use_playwright A) log0 (venues d2)
              else (venues d2, log0)")
        from open_window Inr p first second h show ?thesis
          by (auto simp: scrape_race_data_def scrape_before_jockeys_def
              split: sum.splits prod.splits)
      qed
    qed
  qed
qed

lemma scrape_race_data_jockey_stage:
  assumes "scrape_race_data R W A = Inr (d, st, log)" and "fetch_jockey_detail A"
    and "scrape_before_jockeys R W A = Inr (d3, st3, log3)"
  shows "enrich_jockeys R W (use_playwright A) log3 (venues d3) = Inr (venues d, log)"
    and "date d = date d3" and "days d = days d3" and "st = st3"
  using assms
  by (auto simp: scrape_race_data_stages split: sum.splits prod.splits)

lemma scrape_race_data_horse_stage:
  assumes "scrape_race_data R W A = Inr (d, st, log)"
    and "fetch_horse_detail A" and "\<not> fetch_jockey_detail A"
  shows "\<exists>vs log0. enrich_horses R W (use_playwright A) log0 vs = (venues d, log)"
  using assms
  by (fastforce simp: scrape_race_data_def split: sum.splits prod.splits if_splits)

text \<open>
  C9 (as amended). When \<open>fetch_jockey_detail\<close> is set and \<open>scrape_race_data\<close> succeeds,
  every horse of the flat \<open>venues\<close> view comes out with its fields \<open>birthday\<close>, \<open>height\<close>,
  \<open>weight\<close>, \<open>first_license\<close>, \<open>stats_current\<close> and \<open>stats_total\<close> empty, whatever the
  racecard parse or the horse enrichment had stored there (the carried weight and the
  birthday included), unless the cache the first jockey loop built holds a detail for
  the horse's jockey name; then the six fields are that detail's values. The horse
  dictionaries of the per-day views are not touched: the \<open>days\<close> mapping and the day-block
  objects are the ones the call had before the jockey enrichment.
\<close>

theorem scrape_jockey_fields_cleared_then_set:
  assumes "scrape_race_data R W A = Inr (d, st, log)" and "fetch_jockey_detail A"
    and "scrape_before_jockeys R W A = Inr (d3, st3, log3)"
  shows "\<exists>vs1 seen.
           for_each_horse_r (jockey_fetch_step R W (use_playwright A)) ([], log3) (venues d3)
             = Inr (vs1, seen, log)
           \<and> list_all2 (jockey_fields_set seen) (horses_of (venues d3)) (horses_of (venues d))
           \<and> date d = date d3 \<and> days d = days d3 \<and> st = st3"
proof -
  note stage = scrape_race_data_jockey_stage [OF assms]
  from enrich_jockeys_result [OF stage(1)] obtain vs1 seen where
    a: "for_each_horse_r (jockey_fetch_step R W (use_playwright A)) ([], log3) (venues d3)
          = Inr (vs1, seen, log)"
    and b: "list_all2 (\<lambda>h h'. jockey_fields_set seen h h' \<and> map_of h' ''jockey'' = map_of h ''jockey'')
               (horses_of (venues d3)) (horses_of (venues d))"
    by blast
  from b have "list_all2 (jockey_fields_set seen) (horses_of (venues d3)) (horses_of (venues d))"
    by (rule list_all2_mono) simp
  with a stage(2,3,4) show ?thesis by blast
qed

text \<open>The example racecard, run through the whole call on both networks.\<close>

lemmas racecard_run_defs =
  scrape_race_data_def scrape_before_jockeys_def is_scrape_window_ok_def BLOCKED_WEEKDAYS_def
  fetch_and_parse_def fetch_single_def fetch_without_url_def
  served_world_def file_world_def closed_world_def jockey_args_def default_args_def
  racecard_lib_def example_lib_def no_match_def example_row_def plain_header_def
  parse_syutsuba_html_def parse_race_items_def parse_race_li_def parse_row_def
  parse_course_def extract_venue_from_date_def extract_base_date_def safe_text_def
  cell_link_def anchor_get_def make_absolute_url_def parse_onclick_url_def clean_kg_def
  clean_bataiju_def strip_def isspace_def weekday_key_def List.map_filter_def
  Horse_to_dict_def Race_to_dict_def flat_race_def load_def alias_target_day_def
  json_view_def

lemma served_before:
  "\<exists>d3 st3 ph. scrape_before_jockeys racecard_lib served_world jockey_args = Inr (d3, st3, [])
     \<and> horses_of (venues d3) = [] @ ph # [ph, ph]
     \<and> map_of ph ''jockey'' = Some (PStr (u ''J''))
     \<and> map_of ph ''jockey_url'' = Some (PStr (u ''http://j''))
     \<and> map_of ph ''weight'' = Some (PStr (u ''55.0''))"
  by (simp add: racecard_run_defs horses_of_def u_def Let_def)

lemma served_run:
  "\<exists>d st h' blk ph.
     scrape_race_data racecard_lib served_world jockey_args
       = Inr (d, st, [Static (u ''http://j'')])
     \<and> horses_of (venues d) = [h', h', h']
     \<and> map_of h' ''weight'' = Some (PStr (u ''50''))
     \<and> map_of h' ''birthday'' = Some (PStr (u ''1990''))
     \<and> map_of h' ''height'' = Some (PStr (u ''160''))
     \<and> map_of h' ''jockey'' = Some (PStr (u ''J''))
     \<and> map_of (days (json_view st d)) (u ''sunday'') = Some blk
     \<and> horses_of (day_venues blk) = [ph, ph, ph]
     \<and> map_of ph ''jockey'' = Some (PStr (u ''J''))
     \<and> map_of ph ''weight'' = Some (PStr (u ''55.0''))
     \<and> map_of ph ''height'' = None"
  by (simp add: racecard_run_defs jockey_run_defs u_def Let_def)

lemma unserved_before:
  "\<exists>d3 st3 ph. scrape_before_jockeys racecard_lib file_world jockey_args = Inr (d3, st3, [])
     \<and> horses_of (venues d3) = [ph, ph, ph]
     \<and> map_of ph ''weight'' = Some (PStr (u ''55.0''))"
  by (simp add: racecard_run_defs horses_of_def u_def Let_def)

lemma unserved_run:
  "\<exists>d st h'.
     scrape_race_data racecard_lib file_world jockey_args
       = Inr (d, st, [Static (u ''http://j''), Static (u ''http://j''), Static (u ''http://j'')])
     \<and> horses_of (venues d) = [h', h', h']
     \<and> map_of h' ''weight'' = Some (PStr [])
     \<and> map_of h' ''birthday'' = Some (PStr [])"
  by (simp add: racecard_run_defs jockey_run_defs u_def Let_def)


lemma jockey_args_flag: "fetch_jockey_detail jockey_args"
  by (simp add: jockey_args_def default_args_def)

theorem scrape_jockey_fields_cleared_then_set_witness:
  "(\<exists>d st log d3 st3 vs1 seen.
      scrape_race_data racecard_lib served_world jockey_args = Inr (d, st, log)
      \<and> scrape_before_jockeys racecard_lib served_world jockey_args = Inr (d3, st3, [])
      \<and> for_each_horse_r (jockey_fetch_step racecard_lib served_world (use_playwright jockey_args))
            ([], []) (venues d3) = Inr (vs1, seen, log)
      \<and> list_all2 (jockey_fields_set seen) (horses_of (venues d3)) (horses_of (venues d))
      \<and> list_all (\<lambda>h. map_of h ''weight'' = Some (PStr (u ''55.0''))) (horses_of (venues d3))
      \<and> list_all (\<lambda>h'. map_of h' ''weight'' = Some (PStr (u ''50''))
                        \<and> map_of h' ''birthday'' = Some (PStr (u ''1990'')))
            (horses_of (venues d))
      \<and> days d = days d3 \<and> st = st3)
   \<and> (\<exists>d st log d3 st3 vs1 seen.
      scrape_race_data racecard_lib file_world jockey_args = Inr (d, st, log)
      \<and> scrape_before_jockeys racecard_lib file_world jockey_args = Inr (d3, st3, [])
      \<and> for_each_horse_r (jockey_fetch_step racecard_lib file_world (use_playwright jockey_args))
            ([], []) (venues d3) = Inr (vs1, seen, log)
      \<and> list_all2 (jockey_fields_set seen) (horses_of (venues d3)) (horses_of (venues d))
      \<and> list_all (\<lambda>h. map_of h ''weight'' = Some (PStr (u ''55.0''))) (horses_of (venues d3))
      \<and> list_all (\<lambda>h'. map_of h' ''weight'' = Some (PStr [])
                        \<and> map_of h' ''birthday'' = Some (PStr []))
            (horses_of (venues d)))"
proof
  obtain d st h' where run: "scrape_race_data racecard_lib served_world jockey_args
        = Inr (d, st, [Static (u ''http://j'')])"
    and hs: "horses_of (venues d) = [h', h', h']"
    and v: "map_of h' ''weight'' = Some (PStr (u ''50''))"
      "map_of h' ''birthday'' = Some (PStr (u ''1990''))"
    using served_run by blast
  obtain d3 st3 ph where before: "scrape_before_jockeys racecard_lib served_world jockey_args
        = Inr (d3, st3, [])"
    and hs3: "horses_of (venues d3) = [] @ ph # [ph, ph]"
    and w: "map_of ph ''weight'' = Some (PStr (u ''55.0''))"
    using served_before by blast
  from scrape_jockey_fields_cleared_then_set [OF run jockey_args_flag before]
  obtain vs1 seen where
    "for_each_horse_r (jockey_fetch_step racecard_lib served_world (use_playwright jockey_args))
       ([], []) (venues d3) = Inr (vs1, seen, [Static (u ''http://j'')])"
    and "list_all2 (jockey_fields_set seen) (horses_of (venues d3)) (horses_of (venues d))"
    and "days d = days d3" and "st = st3"
    by blast
  with run before hs hs3 v w
  show "\<exists>d st log d3 st3 vs1 seen.
      scrape_race_data racecard_lib served_world jockey_args = Inr (d, st, log)
      \<and> scrape_before_jockeys racecard_lib served_world jockey_args = Inr (d3, st3, [])
      \<and> for_each_horse_r (jockey_fetch_step racecard_lib served_world (use_playwright jockey_args))
            ([], []) (venues d3) = Inr (vs1, seen, log)
      \<and> list_all2 (jockey_fields_set seen) (horses_of (venues d3)) (horses_of (venues d))
      \<and> list_all (\<lambda>h. map_of h ''weight'' = Some (PStr (u ''55.0''))) (horses_of (venues d3))
      \<and> list_all (\<lambda>h'. map_of h' ''weight'' = Some (PStr (u ''50''))
                        \<and> map_of h' ''birthday'' = Some (PStr (u ''1990'')))
            (horses_of (venues d))
      \<and> days d = days d3 \<and> st = st3"
    by (intro exI [of _ d] exI [of _ st] exI [of _ "[Static (u ''http://j'')]"]
        exI [of _ d3] exI [of _ st3] exI [of _ vs1] exI [of _ seen]) simp
next
  obtain d st h' where run: "scrape_race_data racecard_lib file_world jockey_args
        = Inr (d, st, [Static (u ''http://j''), Static (u ''http://j''), Static (u ''http://j'')])"
    and hs: "horses_of (venues d) = [h', h', h']"
    and v: "map_of h' ''weight'' = Some (PStr [])" "map_of h' ''birthday'' = Some (PStr [])"
    using unserved_run by blast
  obtain d3 st3 ph where before: "scrape_before_jockeys racecard_lib file_world jockey_args
        = Inr (d3, st3, [])"
    and hs3: "horses_of (venues d3) = [ph, ph, ph]"
    and w: "map_of ph ''weight'' = Some (PStr (u ''55.0''))"
    using unserved_before by blast
  from scrape_jockey_fields_cleared_then_set [OF run jockey_args_flag before]
  obtain vs1 seen where
    "for_each_horse_r (jockey_fetch_step racecard_lib file_world (use_playwright jockey_args))
       ([], []) (venues d3)
       = Inr (vs1, seen, [Static (u ''http://j''), Static (u ''http://j''), Static (u ''http://j'')])"
    and "list_all2 (jockey_fields_set seen) (horses_of (venues d3)) (horses_of (venues d))"
    by blast
  with run before hs hs3 v w
  show "\<exists>d st log d3 st3 vs1 seen.
      scrape_race_data racecard_lib file_world jockey_args = Inr (d, st, log)
      \<and> scrape_before_jockeys racecard_lib file_world jockey_args = Inr (d3, st3, [])
      \<and> for_each_horse_r (jockey_fetch_step racecard_lib file_world (use_playwright jockey_args))
            ([], []) (venues d3) = Inr (vs1, seen, log)
      \<and> list_all2 (jockey_fields_set seen) (horses_of (venues d3)) (horses_of (venues d))
      \<and> list_all (\<lambda>h. map_of h ''weight'' = Some (PStr (u ''55.0''))) (horses_of (venues d3))
      \<and> list_all (\<lambda>h'. map_of h' ''weight'' = Some (PStr [])
                        \<and> map_of h' ''birthday'' = Some (PStr []))
            (horses_of (venues d))"
    by (intro exI [of _ d] exI [of _ st]
        exI [of _ "[Static (u ''http://j''), Static (u ''http://j''), Static (u ''http://j'')]"]
        exI [of _ d3] exI [of _ st3] exI [of _ vs1] exI [of _ seen]) simp
qed

text \<open>
  The claim as stated fails for the horses of the per-day views: the enrichment loops
  run over \<open>data["venues"]\<close> only, and the per-day horse dictionaries are other objects.
  After a call with \<open>fetch_jockey_detail\<close> on the serving network, the per-day horses
  ridden by \<open>J\<close> still carry the weight \<open>55.0\<close> and have no \<open>height\<close> entry.
\<close>

theorem per_day_horses_not_enriched_counterexample:
  "\<exists>d st log blk ph.
     scrape_race_data racecard_lib served_world jockey_args = Inr (d, st, log)
     \<and> fetch_jockey_detail jockey_args
     \<and> map_of (days (json_view st d)) (u ''sunday'') = Some blk
     \<and> horses_of (day_venues blk) = [ph, ph, ph]
     \<and> map_of ph ''jockey'' = Some (PStr (u ''J''))
     \<and> map_of ph ''weight'' = Some (PStr (u ''55.0''))
     \<and> map_of ph ''height'' = None"
  using served_run jockey_args_flag by blast

lemma jockey_detail_of_log_ok:
  "jockey_detail_of R W pw lg a = (Inr det, lg') \<Longrightarrow> \<exists>ext. lg' = lg @ ext \<and> fetched_once a pw ext"
  by (auto simp: jockey_detail_of_def fetch_html_from_url_def fetch_page_with_playwright_def
      fetched_once_def
      split: prod.splits sum.splits if_splits response.splits browser.splits)

lemma clear_keeps_jockey:
  "map_of (clear_jockey_fields x) ''jockey'' = map_of x ''jockey''"
  "map_of (clear_jockey_fields x) ''jockey_url'' = map_of x ''jockey_url''"
  by (simp_all add: clear_jockey_fields_lookup jockey_keys_def)

lemma jockey_fetch_step_skip:
  assumes "jockey_fetch_step R W pw (seen, lg) x = Inr (x1, seen1, lg1)"
    and "map_of x ''jockey'' \<noteq> Some n \<or> \<not> truthy_opt (map_of x ''jockey_url'')"
  shows "map_of seen1 n = map_of seen n" and "map_of x ''jockey'' = Some n \<Longrightarrow> lg1 = lg"
  using assms
  by (auto simp: jockey_fetch_step_def Let_def clear_keeps_jockey update_conv'
      split: if_splits option.splits pyval.splits prod.splits sum.splits)

lemma jockey_fetch_step_hit:
  assumes "jockey_fetch_step R W pw (seen, lg) x = Inr (x1, seen1, lg1)"
    and "map_of x ''jockey'' = Some (PStr nm)" and "nm \<noteq> []"
    and "map_of x ''jockey_url'' = Some (PStr a)" and "a \<noteq> []"
    and "\<And>lg. \<exists>det lg'. jockey_detail_of R W pw lg a = (Inr det, lg')"
    and "map_of seen (PStr nm) = None"
  shows "\<exists>det. jockey_detail_of R W pw lg a = (Inr det, lg1)
           \<and> seen1 = AList.update (PStr nm) det seen"
proof -
  from assms(6) obtain det lg' where d: "jockey_detail_of R W pw lg a = (Inr det, lg')"
    by blast
  with assms(1,2,3,4,5,7) show ?thesis
    by (auto simp: jockey_fetch_step_def Let_def clear_keeps_jockey)
qed

lemma jockey_fetch_step_cached:
  assumes "jockey_fetch_step R W pw (seen, lg) x = Inr (x1, seen1, lg1)"
    and "map_of seen n = Some det"
  shows "map_of seen1 n = Some det" and "map_of x ''jockey'' = Some n \<Longrightarrow> lg1 = lg"
  using assms
  by (auto simp: jockey_fetch_step_def Let_def clear_keeps_jockey update_conv'
      split: if_splits option.splits pyval.splits prod.splits sum.splits)

lemma jockey_requests_append:
  "map_accum_r (jockey_fetch_step R W pw) s xs = Inr (xs', s1)
   \<Longrightarrow> jockey_requests R W pw n s (xs @ ys)
       = jockey_requests R W pw n s xs @ jockey_requests R W pw n s1 ys"
proof (induction xs arbitrary: s xs')
  case Nil
  then show ?case by simp
next
  case (Cons x xs)
  from Cons.prems obtain y s2 zs where a: "jockey_fetch_step R W pw s x = Inr (y, s2)"
    and b: "map_accum_r (jockey_fetch_step R W pw) s2 xs = Inr (zs, s1)"
    by (rule map_accum_r_Cons_Inr)
  from Cons.IH [OF b] a show ?case by simp
qed

lemma jockey_loop_skip:
  "list_all (\<lambda>x. map_of x ''jockey'' \<noteq> Some n \<or> \<not> truthy_opt (map_of x ''jockey_url'')) xs
   \<Longrightarrow> map_accum_r (jockey_fetch_step R W pw) (seen, lg) xs = Inr (xs', seen1, lg1)
   \<Longrightarrow> map_of seen1 n = map_of seen n \<and> jockey_requests R W pw n (seen, lg) xs = []"
proof (induction xs arbitrary: seen lg xs')
  case Nil
  then show ?case by simp
next
  case (Cons x xs)
  from Cons.prems(2) obtain y s2 zs where a: "jockey_fetch_step R W pw (seen, lg) x = Inr (y, s2)"
    and b: "map_accum_r (jockey_fetch_step R W pw) s2 xs = Inr (zs, seen1, lg1)"
    by (rule map_accum_r_Cons_Inr)
  obtain seen2 lg2 where s2: "s2 = (seen2, lg2)" by (cases s2)
  from Cons.prems(1) have px: "map_of x ''jockey'' \<noteq> Some n \<or> \<not> truthy_opt (map_of x ''jockey_url'')"
    and pxs: "list_all (\<lambda>x. map_of x ''jockey'' \<noteq> Some n \<or> \<not> truthy_opt (map_of x ''jockey_url'')) xs"
    by simp_all
  note step = jockey_fetch_step_skip [OF a [unfolded s2] px]
  from Cons.IH [OF pxs b [unfolded s2]] step a s2 show ?case by auto
qed

lemma jockey_loop_cached:
  "map_of seen n = Some det
   \<Longrightarrow> map_accum_r (jockey_fetch_step R W pw) (seen, lg) xs = Inr (xs', seen1, lg1)
   \<Longrightarrow> map_of seen1 n = Some det \<and> jockey_requests R W pw n (seen, lg) xs = []"
proof (induction xs arbitrary: seen lg xs')
  case Nil
  then show ?case by simp
next
  case (Cons x xs)
  from Cons.prems(2) obtain y s2 zs where a: "jockey_fetch_step R W pw (seen, lg) x = Inr (y, s2)"
    and b: "map_accum_r (jockey_fetch_step R W pw) s2 xs = Inr (zs, seen1, lg1)"
    by (rule map_accum_r_Cons_Inr)
  obtain seen2 lg2 where s2: "s2 = (seen2, lg2)" by (cases s2)
  note step = jockey_fetch_step_cached [OF a [unfolded s2] Cons.prems(1)]
  from Cons.IH [OF step(1) b [unfolded s2]] step a s2 show ?case by auto
qed

lemma jockey_loop_fetches_once:
  assumes run: "map_accum_r (jockey_fetch_step R W pw) ([], lg0) (pre @ h # post) = Inr (hs', seen, lg')"
    and pre: "list_all (\<lambda>x. map_of x ''jockey'' \<noteq> Some (PStr nm)
                           \<or> \<not> truthy_opt (map_of x ''jockey_url'')) pre"
    and h: "map_of h ''jockey'' = Some (PStr nm)" "nm \<noteq> []"
      "map_of h ''jockey_url'' = Some (PStr a)" "a \<noteq> []"
    and served: "\<And>lg. \<exists>det lg'. jockey_detail_of R W pw lg a = (Inr det, lg')"
  shows "\<exists>det lg lg1. jockey_detail_of R W pw lg a = (Inr det, lg1)
           \<and> jockey_requests R W pw (PStr nm) ([], lg0) (pre @ h # post) = drop (length lg) lg1
           \<and> fetched_once a pw (drop (length lg) lg1)
           \<and> map_of seen (PStr nm) = Some det"
proof -
  from run obtain pre' s1 rest' where
    a: "map_accum_r (jockey_fetch_step R W pw) ([], lg0) pre = Inr (pre', s1)"
    and b: "map_accum_r (jockey_fetch_step R W pw) s1 (h # post) = Inr (rest', seen, lg')"
    by (auto simp: map_accum_r_append split: sum.splits prod.splits)
  obtain seen1 lg1 where s1: "s1 = (seen1, lg1)" by (cases s1)
  from jockey_loop_skip [OF pre a [unfolded s1]]
  have n1: "map_of seen1 (PStr nm) = None"
    and r1: "jockey_requests R W pw (PStr nm) ([], lg0) pre = []" by simp_all
  from b obtain h1 s2 post' where
    c: "jockey_fetch_step R W pw s1 h = Inr (h1, s2)"
    and d: "map_accum_r (jockey_fetch_step R W pw) s2 post = Inr (post', seen, lg')"
    by (rule map_accum_r_Cons_Inr)
  obtain seen2 lg2 where s2: "s2 = (seen2, lg2)" by (cases s2)
  from jockey_fetch_step_hit [OF c [unfolded s1 s2] h served n1]
  obtain det where f: "jockey_detail_of R W pw lg1 a = (Inr det, lg2)"
    and u: "seen2 = AList.update (PStr nm) det seen1" by blast
  from u have n2: "map_of seen2 (PStr nm) = Some det" by (simp add: update_conv')
  from jockey_loop_cached [OF n2 d [unfolded s2]]
  have n3: "map_of seen (PStr nm) = Some det"
    and r3: "jockey_requests R W pw (PStr nm) (seen2, lg2) post = []" by simp_all
  from jockey_detail_of_log_ok [OF f] obtain ext where e: "lg2 = lg1 @ ext"
    and once: "fetched_once a pw ext" by blast
  have "jockey_requests R W pw (PStr nm) ([], lg0) (pre @ h # post)
          = jockey_requests R W pw (PStr nm) s1 (h # post)"
    using jockey_requests_append [OF a, of "PStr nm" "h # post"] r1 by simp
  also have "\<dots> = drop (length lg1) lg2"
    using c h(1) r3 by (simp add: s1 s2)
  finally have "jockey_requests R W pw (PStr nm) ([], lg0) (pre @ h # post) = drop (length lg1) lg2" .
  moreover have "fetched_once a pw (drop (length lg1) lg2)" using e once by simp
  ultimately show ?thesis using f n3 by blast
qed

text \<open>
  C3 (as amended). Let \<open>fetch_jockey_detail\<close> be set and \<open>scrape_race_data\<close> succeed, and
  take a non-empty jockey name and the first horse of the flat view with that name that
  has a non-empty jockey address \<open>a\<close>, a page that is fetched and parsed whenever it is
  requested. Then the iterations at the horses with that name issue exactly the requests
  of one fetch of \<open>a\<close> (one static request, followed on a browser-automation run by at most
  one browser request under the fallback rule), and every horse of the flat view with
  that name comes out with the six jockey fields of the detail that this fetch returned.
\<close>

theorem scrape_jockey_fetched_once_when_served:
  assumes "scrape_race_data R W A = Inr (d, st, log)" and "fetch_jockey_detail A"
    and "scrape_before_jockeys R W A = Inr (d3, st3, log3)"
    and "horses_of (venues d3) = pre @ h # post"
    and "list_all (\<lambda>x. map_of x ''jockey'' \<noteq> Some (PStr nm)
                        \<or> \<not> truthy_opt (map_of x ''jockey_url'')) pre"
    and "map_of h ''jockey'' = Some (PStr nm)" and "nm \<noteq> []"
    and "map_of h ''jockey_url'' = Some (PStr a)" and "a \<noteq> []"
    and "\<And>lg. \<exists>det lg'. jockey_detail_of R W (use_playwright A) lg a = (Inr det, lg')"
  shows "\<exists>det lg lg1.
           jockey_detail_of R W (use_playwright A) lg a = (Inr det, lg1)
           \<and> jockey_requests R W (use_playwright A) (PStr nm) ([], log3) (horses_of (venues d3))
               = drop (length lg) lg1
           \<and> fetched_once a (use_playwright A) (drop (length lg) lg1)
           \<and> list_all
               (\<lambda>h'. map_of h' ''jockey'' \<noteq> Some (PStr nm)
                      \<or> list_all (\<lambda>k. map_of h' k = map_of det k) jockey_keys)
               (horses_of (venues d))"
proof -
  note stage = scrape_race_data_jockey_stage [OF assms(1,2,3)]
  from enrich_jockeys_result [OF stage(1)] obtain vs1 seen where
    first: "for_each_horse_r (jockey_fetch_step R W (use_playwright A)) ([], log3) (venues d3)
              = Inr (vs1, seen, log)"
    and rel: "list_all2 (\<lambda>h h'. jockey_fields_set seen h h' \<and> map_of h' ''jockey'' = map_of h ''jockey'')
               (horses_of (venues d3)) (horses_of (venues d))"
    by blast
  have loop: "map_accum_r (jockey_fetch_step R W (use_playwright A)) ([], log3) (pre @ h # post)
               = Inr (horses_of vs1, seen, log)"
    using for_each_horse_r_flat [OF first] assms(4) by simp
  from jockey_loop_fetches_once [OF loop assms(5,6,7,8,9,10)]
  obtain det lg lg1 where
    f: "jockey_detail_of R W (use_playwright A) lg a = (Inr det, lg1)"
    and r: "jockey_requests R W (use_playwright A) (PStr nm) ([], log3) (pre @ h # post)
              = drop (length lg) lg1"
    and o: "fetched_once a (use_playwright A) (drop (length lg) lg1)"
    and sn: "map_of seen (PStr nm) = Some det"
    by blast
  have "list_all2 (\<lambda>h h'. map_of h' ''jockey'' \<noteq> Some (PStr nm)
                      \<or> list_all (\<lambda>k. map_of h' k = map_of det k) jockey_keys)
          (horses_of (venues d3)) (horses_of (venues d))"
    using rel
    by (rule list_all2_mono) (auto simp: jockey_fields_set_def jockey_det_def sn)
  then have "list_all (\<lambda>h'. map_of h' ''jockey'' \<noteq> Some (PStr nm)
                      \<or> list_all (\<lambda>k. map_of h' k = map_of det k) jockey_keys)
               (horses_of (venues d))"
    by (induction rule: list_all2_induct) simp_all
  with f r o assms(4) show ?thesis by auto
qed

lemma served_page:
  "\<exists>det lg'. jockey_detail_of racecard_lib served_world (use_playwright jockey_args) lg (u ''http://j'')
      = (Inr det, lg')"
  by (simp add: racecard_run_defs jockey_run_defs u_def)

theorem scrape_jockey_fetched_once_when_served_witness:
  "\<exists>d st log d3 st3 det.
     scrape_race_data racecard_lib served_world jockey_args = Inr (d, st, log)
     \<and> scrape_before_jockeys racecard_lib served_world jockey_args = Inr (d3, st3, [])
     \<and> length (horses_of (venues d3)) = 3
     \<and> jockey_requests racecard_lib served_world (use_playwright jockey_args) (PStr (u ''J''))
          ([], []) (horses_of (venues d3)) = [Static (u ''http://j'')]
     \<and> length (horses_of (venues d)) = 3
     \<and> list_all (\<lambda>h'. list_all (\<lambda>k. map_of h' k = map_of det k) jockey_keys)
          (horses_of (venues d))"
proof -
  obtain d st h' where run: "scrape_race_data racecard_lib served_world jockey_args
        = Inr (d, st, [Static (u ''http://j'')])"
    and hs: "horses_of (venues d) = [h', h', h']"
    and nm': "map_of h' ''jockey'' = Some (PStr (u ''J''))"
    using served_run by blast
  obtain d3 st3 ph where before: "scrape_before_jockeys racecard_lib served_world jockey_args
        = Inr (d3, st3, [])"
    and hs3: "horses_of (venues d3) = [] @ ph # [ph, ph]"
    and j: "map_of ph ''jockey'' = Some (PStr (u ''J''))"
    and ju: "map_of ph ''jockey_url'' = Some (PStr (u ''http://j''))"
    using served_before by blast
  have pre: "list_all (\<lambda>x. map_of x ''jockey'' \<noteq> Some (PStr (u ''J''))
                        \<or> \<not> truthy_opt (map_of x ''jockey_url'')) []" by simp
  have nm: "u ''J'' \<noteq> []" and a: "u ''http://j'' \<noteq> []" by (simp_all add: u_def)
  have pw: "use_playwright jockey_args = False"
    by (simp add: jockey_args_def default_args_def)
  from scrape_jockey_fetched_once_when_served
    [OF run jockey_args_flag before hs3 pre j nm ju a served_page]
  obtain det lg lg1 where
    f0: "jockey_detail_of racecard_lib served_world (use_playwright jockey_args) lg (u ''http://j'')
          = (Inr det, lg1)"
    and r: "jockey_requests racecard_lib served_world (use_playwright jockey_args) (PStr (u ''J''))
          ([], []) (horses_of (venues d3)) = drop (length lg) lg1"
    and o: "fetched_once (u ''http://j'') (use_playwright jockey_args) (drop (length lg) lg1)"
    and l: "list_all (\<lambda>h'. map_of h' ''jockey'' \<noteq> Some (PStr (u ''J''))
                      \<or> list_all (\<lambda>k. map_of h' k = map_of det k) jockey_keys)
              (horses_of (venues d))"
    by (elim exE conjE) (rule that; assumption)
  from o pw have "drop (length lg) lg1 = [Static (u ''http://j'')]"
    by (simp add: fetched_once_def)
  with r have r': "jockey_requests racecard_lib served_world (use_playwright jockey_args)
      (PStr (u ''J'')) ([], []) (horses_of (venues d3)) = [Static (u ''http://j'')]" by simp
  from l hs nm' have "list_all (\<lambda>h'. list_all (\<lambda>k. map_of h' k = map_of det k) jockey_keys)
      (horses_of (venues d))" by simp
  with run before hs hs3 r' show ?thesis
    by (intro exI [of _ d] exI [of _ st] exI [of _ "[Static (u ''http://j'')]"]
        exI [of _ d3] exI [of _ st3] exI [of _ det]) simp
qed

lemma fallback_run:
  "\<exists>d st. scrape_race_data blank_jockey_lib browser_world browser_args
             = Inr (d, st, [Static (u ''http://j''), Browser (u ''http://j'')])"
  by (simp add: racecard_run_defs jockey_run_defs blank_jockey_lib_def browser_world_def
      browser_args_def fetch_syutsuba_with_playwright_def fetch_page_with_playwright_def
      u_def Let_def)

text \<open>
  The claim as stated fails in three ways. A detail is cached only when the fetch and
  the parse succeed, so on a network that times out each of the three horses ridden by
  \<open>J\<close> requests the page again. On a browser-automation run whose static result is empty
  the page is fetched a second time through the browser. And the horses of the per-day
  views receive no jockey fields at all.
\<close>

theorem jockey_refetched_counterexample:
  "(\<exists>d st. scrape_race_data racecard_lib file_world jockey_args
              = Inr (d, st, [Static (u ''http://j''), Static (u ''http://j''),
                             Static (u ''http://j'')]))
   \<and> (\<exists>d st. scrape_race_data blank_jockey_lib browser_world browser_args
              = Inr (d, st, [Static (u ''http://j''), Browser (u ''http://j'')]))
   \<and> (\<exists>d st log h' blk ph.
         scrape_race_data racecard_lib served_world jockey_args = Inr (d, st, log)
         \<and> horses_of (venues d) = [h', h', h']
         \<and> map_of h' ''jockey'' = Some (PStr (u ''J''))
         \<and> map_of h' ''height'' = Some (PStr (u ''160''))
         \<and> map_of (days (json_view st d)) (u ''sunday'') = Some blk
         \<and> horses_of (day_venues blk) = [ph, ph, ph]
         \<and> map_of ph ''jockey'' = Some (PStr (u ''J''))
         \<and> map_of ph ''height'' = None)"
  using unserved_run fallback_run served_run by blast

end
